theory Spec2Isabelle
  imports Complex_Main
begin

section \<open>The XUnit reporter of build/reporters/xunit-spec.js\<close>

text \<open>
  The reporter listens to the events of a mocha runner. Test events are buffered and
  logged to the console with the current indentation; at the end of the run the buffer is
  written as one XML document to a file stream, to standard output or to the console.
  The development follows the source function by function: JavaScript values, the helper
  \<open>tag\<close>, \<open>XUnit.prototype.write\<close>, \<open>test\<close> and \<open>done\<close>, the constructor and its
  event handlers.
\<close>

subsection \<open>JavaScript numbers and strings\<close>

text \<open>
  A number is NaN, an infinity or a finite value. Finite values are kept as rationals: the
  rounding of doubles is not modelled (nor their overflow to an infinity and underflow to
  zero), and neither is the negative zero (it is falsy and prints as \<open>0\<close>, like zero).
\<close>

datatype js_number = NaN | PosInf | NegInf | Fin rat

text \<open>
  The values that \<open>ToNumber\<close> converts: every primitive value but a BigInt and a Symbol.
  mocha's Runnable stores a difference of two Dates in \<open>duration\<close> (a number, NaN when a
  Date is invalid) or leaves the property unset; the other values are what else a
  \<open>duration\<close> can hold without the division throwing.
\<close>

datatype js_value = Undefined | Null | Boolean bool | Number js_number | String string

text \<open>
  \<open>StringToNumber\<close>: the text without the white space around it is empty (the number 0), a
  decimal literal with an optional sign (digits with an optional fraction and exponent, or
  \<open>Infinity\<close>), or a binary, octal or hexadecimal integer literal without a sign; any other
  text is NaN. A character is a code point below 256.
\<close>

definition is_str_space :: "char \<Rightarrow> bool" where
  "is_str_space c = (c \<in> {CHR 0x09, CHR 0x0A, CHR 0x0B, CHR 0x0C, CHR 0x0D, CHR 0x20, CHR 0xA0})"

definition trim :: "string \<Rightarrow> string" where
  "trim s = rev (dropWhile is_str_space (rev (dropWhile is_str_space s)))"

definition is_digit :: "char \<Rightarrow> bool" where
  "is_digit c = (c \<in> set ''0123456789'')"

definition is_hex_digit :: "char \<Rightarrow> bool" where
  "is_hex_digit c = (c \<in> set ''0123456789abcdefABCDEF'')"

definition digit_value :: "char \<Rightarrow> nat" where
  "digit_value c =
     (if is_digit c then of_char c - 48
      else if c \<in> set ''abcdef'' then of_char c - 87
      else of_char c - 55)"

definition digits_value :: "nat \<Rightarrow> string \<Rightarrow> nat" where
  "digits_value base ds = foldl (\<lambda>v c. v * base + digit_value c) 0 ds"

text \<open>The exponent part of a decimal literal; \<open>None\<close> when the text is not one.\<close>

definition exponent_part :: "string \<Rightarrow> int option" where
  "exponent_part s =
     (if s = [] then Some 0
      else if hd s = CHR ''e'' \<or> hd s = CHR ''E'' then
        (let s1 = tl s;
             negative = (s1 \<noteq> [] \<and> hd s1 = CHR ''-'');
             ds = (if s1 \<noteq> [] \<and> (hd s1 = CHR ''+'' \<or> hd s1 = CHR ''-'') then tl s1 else s1)
         in if ds \<noteq> [] \<and> list_all is_digit ds
            then Some (if negative then - int (digits_value 10 ds) else int (digits_value 10 ds))
            else None)
      else None)"

definition scale10 :: "rat \<Rightarrow> int \<Rightarrow> rat" where
  "scale10 x e = (if 0 \<le> e then x * 10 ^ nat e else x / 10 ^ nat (- e))"

definition unsigned_decimal :: "string \<Rightarrow> js_number option" where
  "unsigned_decimal s =
     (if s = ''Infinity'' then Some PosInf
      else
        (let ip = takeWhile is_digit s;
             s1 = dropWhile is_digit s;
             dot = (s1 \<noteq> [] \<and> hd s1 = CHR ''.'');
             fp = (if dot then takeWhile is_digit (tl s1) else []);
             s2 = (if dot then dropWhile is_digit (tl s1) else s1)
         in if ip = [] \<and> fp = [] then None
            else case exponent_part s2 of
                   None \<Rightarrow> None
                 | Some e \<Rightarrow>
                     Some (Fin (scale10
                       (of_nat (digits_value 10 ip) +
                        of_nat (digits_value 10 fp) / 10 ^ length fp) e))))"

fun negate :: "js_number \<Rightarrow> js_number" where
  "negate NaN = NaN"
| "negate PosInf = NegInf"
| "negate NegInf = PosInf"
| "negate (Fin x) = Fin (- x)"

definition decimal_literal :: "string \<Rightarrow> js_number option" where
  "decimal_literal s =
     (if s \<noteq> [] \<and> hd s = CHR ''+'' then unsigned_decimal (tl s)
      else if s \<noteq> [] \<and> hd s = CHR ''-'' then map_option negate (unsigned_decimal (tl s))
      else unsigned_decimal s)"

definition non_decimal_literal :: "string \<Rightarrow> js_number option" where
  "non_decimal_literal s =
     (let ds = drop 2 s
      in if take 2 s \<in> {''0x'', ''0X''} \<and> ds \<noteq> [] \<and> list_all is_hex_digit ds
         then Some (Fin (of_nat (digits_value 16 ds)))
         else if take 2 s \<in> {''0o'', ''0O''} \<and> ds \<noteq> [] \<and> list_all (\<lambda>c. c \<in> set ''01234567'') ds
         then Some (Fin (of_nat (digits_value 8 ds)))
         else if take 2 s \<in> {''0b'', ''0B''} \<and> ds \<noteq> [] \<and> list_all (\<lambda>c. c \<in> set ''01'') ds
         then Some (Fin (of_nat (digits_value 2 ds)))
         else None)"

definition StringToNumber :: "string \<Rightarrow> js_number" where
  "StringToNumber s =
     (let t = trim s
      in if t = [] then Fin 0
         else case decimal_literal t of
                Some x \<Rightarrow> x
              | None \<Rightarrow> (case non_decimal_literal t of Some x \<Rightarrow> x | None \<Rightarrow> NaN))"

fun ToNumber :: "js_value \<Rightarrow> js_number" where
  "ToNumber Undefined = NaN"
| "ToNumber Null = Fin 0"
| "ToNumber (Boolean b) = Fin (if b then 1 else 0)"
| "ToNumber (Number x) = x"
| "ToNumber (String s) = StringToNumber s"

text \<open>\<open>x / 1000\<close>, for the literal divisor of the source.\<close>

fun div1000 :: "js_number \<Rightarrow> js_number" where
  "div1000 NaN = NaN"
| "div1000 PosInf = PosInf"
| "div1000 NegInf = NegInf"
| "div1000 (Fin x) = Fin (x / 1000)"

fun truthy :: "js_number \<Rightarrow> bool" where
  "truthy NaN = False"
| "truthy (Fin x) = (x \<noteq> 0)"
| "truthy _ = True"

text \<open>\<open>x || y\<close> on numbers.\<close>

definition js_or :: "js_number \<Rightarrow> js_number \<Rightarrow> js_number" where
  "js_or x y = (if truthy x then x else y)"

text \<open>A string or undefined value is truthy when it is a non-empty string.\<close>

fun truthy_string :: "string option \<Rightarrow> bool" where
  "truthy_string None = False"
| "truthy_string (Some s) = (s \<noteq> [])"

fun show_nat :: "nat \<Rightarrow> string" where
  "show_nat k =
     (if k < 10 then [''0123456789'' ! k]
      else show_nat (k div 10) @ [''0123456789'' ! (k mod 10)])"

declare show_nat.simps [simp del]

definition show_int :: "int \<Rightarrow> string" where
  "show_int i = (if i < 0 then ''-'' @ show_nat (nat (- i)) else show_nat (nat i))"

text \<open>
  The digits after the decimal point of \<open>p / q\<close> for \<open>p < q\<close>, by long division, at most
  \<open>fuel\<close> of them.
\<close>

fun frac_digits :: "nat \<Rightarrow> nat \<Rightarrow> nat \<Rightarrow> string" where
  "frac_digits 0 p q = []"
| "frac_digits (Suc fuel) p q =
     (if p = 0 then []
      else (''0123456789'' ! ((10 * p) div q)) # frac_digits fuel ((10 * p) mod q) q)"

text \<open>
  \<open>String(x)\<close> for a number. Integers print in decimal and other finite values with their
  decimal digits, as JavaScript prints them between \<open>1e-6\<close> and \<open>1e21\<close>; the exponent
  notation outside that range is not modelled, and a value with more than 20 decimals is
  cut there. A duration in whole milliseconds, divided by 1000, has at most three.
\<close>

fun number_to_string :: "js_number \<Rightarrow> string" where
  "number_to_string NaN = ''NaN''"
| "number_to_string PosInf = ''Infinity''"
| "number_to_string NegInf = ''-Infinity''"
| "number_to_string (Fin x) =
     (let (p, q) = quotient_of x; a = nat \<bar>p\<bar>; b = nat q
      in (if p < 0 then ''-'' else []) @ show_nat (a div b) @
         (if a mod b = 0 then [] else ''.'' @ frac_digits 20 (a mod b) b))"

text \<open>\<open>Array.prototype.join\<close>.\<close>

fun join :: "string \<Rightarrow> string list \<Rightarrow> string" where
  "join sep [] = []"
| "join sep [x] = x"
| "join sep (x # y # ys) = x @ sep @ join sep (y # ys)"

subsection \<open>Helpers of mocha that the reporter calls\<close>

text \<open>
  Modelled from the spec: \<open>utils.escape\<close> of mocha, which is required from node_modules and
  is not part of the source file. The specification asks that \<open>&\<close>, \<open><\<close>, \<open>>\<close> and \<open>"\<close>
  are XML-escaped and shows \<open>x<y\<close> rendered as \<open>x&lt;y\<close>; every other character is kept.
\<close>

definition escape_char :: "char \<Rightarrow> string" where
  "escape_char c =
     (if c = CHR ''&'' then ''&amp;''
      else if c = CHR ''<'' then ''&lt;''
      else if c = CHR ''>'' then ''&gt;''
      else if c = CHR 0x22 then ''&quot;''
      else [c])"

definition escape :: "string \<Rightarrow> string" where
  "escape s = concat (map escape_char s)"

text \<open>
  Modelled from the spec: \<open>Base.color\<close> of mocha's base reporter. The specification treats
  colour and symbol rendering as a cosmetic pass-through, so the text is returned as it is.
\<close>

definition color :: "string \<Rightarrow> string \<Rightarrow> string" where
  "color type str = str"

text \<open>
  Modelled from the spec: \<open>Base.symbols.ok\<close>, the checkmark glyph of a passed test
  (U+2713, here its three UTF-8 bytes).
\<close>

definition symbols_ok :: string where
  "symbols_ok = [CHR 0xE2, CHR 0x9C, CHR 0x93]"

subsection \<open>The tag helper\<close>

text \<open>An attribute value is a string or a number; \<open>escape\<close> applies \<open>String\<close> to it.\<close>

datatype attr_value = AStr string | ANum js_number

fun ToString :: "attr_value \<Rightarrow> string" where
  "ToString (AStr s) = s"
| "ToString (ANum x) = number_to_string x"

definition pair :: "string \<times> attr_value \<Rightarrow> string" where
  "pair kv = fst kv @ ''='' @ [CHR 0x22] @ escape (ToString (snd kv)) @ [CHR 0x22]"

text \<open>
  \<open>tag(name, attrs, close, content)\<close>. The attributes are the own properties of an object
  literal, in the order they were written; \<open>content\<close> is \<open>None\<close> when the argument is left
  out, and an empty string is falsy like a missing one.
\<close>

definition tag :: "string \<Rightarrow> (string \<times> attr_value) list \<Rightarrow> bool \<Rightarrow> string option \<Rightarrow> string" where
  "tag name attrs close content =
     (let end = (if close then ''/>'' else ''>'');
          pairs = map pair attrs;
          t = ''<'' @ name @ (if pairs \<noteq> [] then '' '' @ join '' '' pairs else []) @ end
      in if truthy_string content then t @ the content @ ''</'' @ name @ end else t)"

subsection \<open>Tests, statistics and the reporter's state\<close>

datatype runnable_state = STATE_FAILED | STATE_PASSED | STATE_UNSET

text \<open>
  The error of a failed test. \<open>showDiff\<close> is the value of
  \<open>!Base.hideDiff && Base.showDiff(err)\<close> and \<open>generatedDiff\<close> that of
  \<open>Base.generateDiff(err.actual, err.expected)\<close>; both functions belong to mocha.
\<close>

record err_object =
  message :: string
  stack :: string
  showDiff :: bool
  generatedDiff :: string

text \<open>
  A test as the handlers read it: \<open>parent_fullTitle\<close> is \<open>test.parent.fullTitle()\<close> and
  \<open>isPending\<close> is \<open>test.isPending()\<close>. The base reporter stores \<open>err\<close> on a failed test before
  this reporter's handler runs. The record is the test as it is when the run ends.
\<close>

record test =
  title :: string
  parent_fullTitle :: string
  duration :: js_value
  state :: runnable_state
  isPending :: bool
  speed :: string
  err :: err_object

record stats =
  stats_tests :: int
  stats_passes :: int
  stats_failures :: int
  stats_pending :: int
  stats_duration :: js_value

datatype log_arg = LStr string | LNum js_number | LVal js_value

text \<open>
  A call of \<open>Base.consoleLog\<close> with its arguments, or the call of \<open>epilogue\<close>, whose text is
  printed by mocha's base reporter from the statistics.
\<close>

datatype console_call = Log "log_arg list" | Epilogue stats

text \<open>
  Modelled from the spec: the file stream returned by \<open>fs.createWriteStream\<close>, which belongs
  to the runtime. The specification describes a sink that queues writes, that is flushed
  and closed at teardown, and that reports its close as finished. \<open>queued\<close> holds the chunks
  accepted by \<open>write\<close> that are not in the file yet, \<open>written_to_file\<close> the chunks that are, and
  \<open>end_callback\<close> the value captured by the callback given to \<open>end\<close>.
\<close>

record file_stream =
  path :: string
  queued :: "string list"
  written_to_file :: "string list"
  end_callback :: "int option"
  finished :: bool

definition createWriteStream :: "string \<Rightarrow> file_stream" where
  "createWriteStream p =
     \<lparr>path = p, queued = [], written_to_file = [], end_callback = None, finished = False\<rparr>"

definition stream_write :: "string \<Rightarrow> file_stream \<Rightarrow> file_stream" where
  "stream_write chunk fs = fs\<lparr>queued := queued fs @ [chunk]\<rparr>"

definition stream_end :: "int \<Rightarrow> file_stream \<Rightarrow> file_stream" where
  "stream_end cb fs = fs\<lparr>end_callback := Some cb\<rparr>"

text \<open>
  The state of a reporter: the variables of the constructor's closure (\<open>tests\<close>,
  \<open>indents\<close>, \<open>n\<close> as \<open>fail_n\<close>, \<open>suiteName\<close>), \<open>this.stats\<close> and \<open>this.fileStream\<close>, whether
  the once-only listener of the run's end is still registered, and what the reporter has
  done to the outside: the chunks written to standard output, the console calls, and the
  calls \<open>fn(failures)\<close> made by \<open>done\<close>.
\<close>

record reporter =
  stats :: stats
  tests :: "test list"
  indents :: int
  fail_n :: int
  suiteName :: string
  fileStream :: "file_stream option"
  run_end_listener :: bool
  has_stdout :: bool
  stdout :: "string list"
  console :: "console_call list"
  completed :: "int list"

datatype error = RangeError | TypeError | UnsupportedError string | FsError

subsection \<open>write, test and done\<close>

definition consoleLog :: "log_arg list \<Rightarrow> reporter \<Rightarrow> reporter" where
  "consoleLog args r = r\<lparr>console := console r @ [Log args]\<rparr>"

definition XUnit_write :: "string \<Rightarrow> reporter \<Rightarrow> reporter" where
  "XUnit_write line r =
     (case fileStream r of
        Some fs \<Rightarrow> r\<lparr>fileStream := Some (stream_write (line @ [CHR 0x0A]) fs)\<rparr>
      | None \<Rightarrow>
          if has_stdout r then r\<lparr>stdout := stdout r @ [line @ [CHR 0x0A]]\<rparr>
          else consoleLog [LStr line] r)"

text \<open>The \<open>time\<close> attribute: \<open>duration / 1000 || 0\<close>.\<close>

definition seconds :: "js_value \<Rightarrow> js_number" where
  "seconds d = js_or (div1000 (ToNumber d)) (Fin 0)"



definition test_attrs :: "test \<Rightarrow> (string \<times> attr_value) list" where
  "test_attrs t =
     [(''classname'', AStr (parent_fullTitle t)),
      (''name'', AStr (title t)),
      (''time'', ANum (seconds (duration t)))]"

definition failure_content :: "err_object \<Rightarrow> string" where
  "failure_content e =
     (let diff = (if showDiff e then [CHR 0x0A] @ generatedDiff e else [])
      in escape (message e) @ escape diff @ [CHR 0x0A] @ escape (stack e))"

text \<open>The line that \<open>XUnit.prototype.test\<close> hands to \<open>write\<close>.\<close>

definition test_line :: "test \<Rightarrow> string" where
  "test_line t =
     (if state t = STATE_FAILED then
        tag ''testcase'' (test_attrs t) False
          (Some (tag ''failure'' [] False (Some (failure_content (err t)))))
      else if isPending t then
        tag ''testcase'' (test_attrs t) False (Some (tag ''skipped'' [] True None))
      else tag ''testcase'' (test_attrs t) True None)"

definition XUnit_test :: "test \<Rightarrow> reporter \<Rightarrow> reporter" where
  "XUnit_test t r = XUnit_write (test_line t) r"

text \<open>The call \<open>fn(failures)\<close> of the completion callback.\<close>

definition fn :: "int \<Rightarrow> reporter \<Rightarrow> reporter" where
  "fn failures r = r\<lparr>completed := completed r @ [failures]\<rparr>"

definition XUnit_done :: "int \<Rightarrow> reporter \<Rightarrow> reporter" where
  "XUnit_done failures r =
     (case fileStream r of
        Some fs \<Rightarrow> r\<lparr>fileStream := Some (stream_end failures fs)\<rparr>
      | None \<Rightarrow> fn failures r)"

text \<open>
  Modelled from the spec: what the runtime does to an open file sink between the calls of
  the reporter. It moves the oldest queued chunk into the file; once \<open>end\<close> has been called
  and nothing is queued, it closes the sink and reports the close as finished by calling
  the callback given to \<open>end\<close>.
\<close>

inductive sink_step :: "reporter \<Rightarrow> reporter \<Rightarrow> bool" where
  flush:
    "fileStream r = Some fs \<Longrightarrow> queued fs = c # cs \<Longrightarrow> \<not> finished fs \<Longrightarrow>
     sink_step r (r\<lparr>fileStream := Some (fs\<lparr>queued := cs, written_to_file := written_to_file fs @ [c]\<rparr>)\<rparr>)"
| finish:
    "fileStream r = Some fs \<Longrightarrow> queued fs = [] \<Longrightarrow> \<not> finished fs \<Longrightarrow>
     end_callback fs = Some cb \<Longrightarrow>
     sink_step r (fn cb (r\<lparr>fileStream := Some (fs\<lparr>finished := True\<rparr>)\<rparr>))"

inductive sink_steps :: "reporter \<Rightarrow> reporter \<Rightarrow> bool" where
  refl: "sink_steps r r"
| step: "sink_steps r r' \<Longrightarrow> sink_step r' r'' \<Longrightarrow> sink_steps r r''"

code_pred sink_step .

subsection \<open>The constructor\<close>

text \<open>\<open>options.reporterOptions\<close> with its properties \<open>output\<close> and \<open>suiteName\<close>.\<close>

record reporter_options =
  ro_output :: "string option"
  ro_suiteName :: "string option"

record options =
  reporterOptions :: "reporter_options option"

text \<open>
  What the constructor reads from the runtime: \<open>process.env.MOCHA_FILE\<close>, whether
  \<open>fs.createWriteStream\<close> exists, whether \<open>fs.mkdirSync\<close> throws, and whether
  \<open>process.stdout\<close> exists.
\<close>

record environment =
  MOCHA_FILE :: "string option"
  has_createWriteStream :: bool
  mkdirSync_throws :: bool
  process_stdout :: bool

definition DEFAULT_SUITE_NAME :: string where
  "DEFAULT_SUITE_NAME = ''Mocha Tests''"

text \<open>\<open>options && options.reporterOptions\<close>.\<close>

definition reporter_options_of :: "options option \<Rightarrow> reporter_options option" where
  "reporter_options_of opts = (case opts of None \<Rightarrow> None | Some os \<Rightarrow> reporterOptions os)"

text \<open>The value of \<open>outputPath\<close> after lines 72 to 79.\<close>

definition outputPath :: "environment \<Rightarrow> options option \<Rightarrow> string option" where
  "outputPath env opts =
     (case reporter_options_of opts of
        None \<Rightarrow> MOCHA_FILE env
      | Some ro \<Rightarrow>
          if truthy_string (ro_output ro) \<and> \<not> truthy_string (MOCHA_FILE env) then ro_output ro
          else MOCHA_FILE env)"

text \<open>The value of \<open>suiteName\<close> after line 92.\<close>

definition resolved_suiteName :: "options option \<Rightarrow> string" where
  "resolved_suiteName opts =
     (let sn = (case reporter_options_of opts of None \<Rightarrow> None | Some ro \<Rightarrow> ro_suiteName ro)
      in if truthy_string sn then the sn else DEFAULT_SUITE_NAME)"

definition new_stats :: stats where
  "new_stats = \<lparr>stats_tests = 0, stats_passes = 0, stats_failures = 0, stats_pending = 0,
     stats_duration = Undefined\<rparr>"

definition new_reporter :: "environment \<Rightarrow> options option \<Rightarrow> file_stream option \<Rightarrow> reporter" where
  "new_reporter env opts fs =
     \<lparr>stats = new_stats, tests = [], indents = 0, fail_n = 0,
      suiteName = resolved_suiteName opts, fileStream = fs, run_end_listener = True,
      has_stdout = process_stdout env, stdout = [], console = [], completed = []\<rparr>"

definition XUnit :: "environment \<Rightarrow> options option \<Rightarrow> error + reporter" where
  "XUnit env opts =
     (if truthy_string (outputPath env opts) then
        if \<not> has_createWriteStream env then
          Inl (UnsupportedError ''file output not supported in browser'')
        else if mkdirSync_throws env then Inl FsError
        else Inr (new_reporter env opts (Some (createWriteStream (the (outputPath env opts)))))
      else Inr (new_reporter env opts None))"

subsection \<open>The event handlers\<close>

text \<open>
  \<open>indent()\<close> is \<open>Array(indents).join('  ')\<close>. \<open>Array(k)\<close> throws a RangeError for a negative
  \<open>k\<close> and is an array of \<open>k\<close> empty slots otherwise, which \<open>join\<close> reads as empty strings.
  (\<open>Array\<close> also rejects lengths above \<open>2^32 - 1\<close>; no run nests that many suites.)
\<close>

definition indent :: "reporter \<Rightarrow> error + string" where
  "indent r =
     (if indents r < 0 then Inl RangeError
      else Inr (join ''  '' (replicate (nat (indents r)) [])))"

text \<open>
  The events of the runner with what they carry. The end of the run carries the two clock
  readings made while it is handled: \<open>new Date().toUTCString()\<close> and the duration of the run
  that the statistics hold by then.
\<close>

datatype event =
    EVENT_TEST_PENDING test
  | EVENT_TEST_PASS test
  | EVENT_TEST_FAIL test
  | EVENT_RUN_END string js_value
  | EVENT_RUN_BEGIN
  | EVENT_SUITE_BEGIN string
  | EVENT_SUITE_END

definition on_test_pending :: "test \<Rightarrow> reporter \<Rightarrow> error + reporter" where
  "on_test_pending t r =
     (let r1 = r\<lparr>tests := tests r @ [t]\<rparr>
      in case indent r1 of
           Inl e \<Rightarrow> Inl e
         | Inr i \<Rightarrow> Inr (consoleLog [LStr (i @ color ''pending'' ''  - %s''), LStr (title t)] r1))"

definition on_test_pass :: "test \<Rightarrow> reporter \<Rightarrow> error + reporter" where
  "on_test_pass t r =
     (let r1 = r\<lparr>tests := tests r @ [t]\<rparr>
      in case indent r1 of
           Inl e \<Rightarrow> Inl e
         | Inr i \<Rightarrow>
             if speed t = ''fast'' then
               Inr (consoleLog
                 [LStr (i @ color ''checkmark'' (''  '' @ symbols_ok) @ color ''pass'' '' %s''),
                  LStr (title t)] r1)
             else
               Inr (consoleLog
                 [LStr (i @ color ''checkmark'' (''  '' @ symbols_ok) @ color ''pass'' '' %s'' @
                    color (speed t) '' (%dms)''),
                  LStr (title t), LVal (duration t)] r1))"

definition on_test_fail :: "test \<Rightarrow> reporter \<Rightarrow> error + reporter" where
  "on_test_fail t r =
     (let r1 = r\<lparr>tests := tests r @ [t]\<rparr>
      in case indent r1 of
           Inl e \<Rightarrow> Inl e
         | Inr i \<Rightarrow>
             (let r2 = r1\<lparr>fail_n := fail_n r1 + 1\<rparr>
              in Inr (consoleLog
                   [LStr (i @ color ''fail'' ''  %d) %s''), LNum (Fin (of_int (fail_n r2))),
                    LStr (title t)] r2)))"

text \<open>The attributes of the root element, from \<open>suiteName\<close>, the statistics and the clock.\<close>

definition testsuite_attrs :: "string \<Rightarrow> reporter \<Rightarrow> (string \<times> attr_value) list" where
  "testsuite_attrs utc r =
     [(''name'', AStr (suiteName r)),
      (''tests'', ANum (Fin (of_int (stats_tests (stats r))))),
      (''failures'', ANum (Fin 0)),
      (''errors'', ANum (Fin (of_int (stats_failures (stats r))))),
      (''skipped'', ANum (Fin (of_int
         (stats_tests (stats r) - stats_failures (stats r) - stats_passes (stats r))))),
      (''timestamp'', AStr utc),
      (''time'', ANum (seconds (stats_duration (stats r))))]"

definition epilogue :: "reporter \<Rightarrow> reporter" where
  "epilogue r = r\<lparr>console := console r @ [Epilogue (stats r)]\<rparr>"

definition on_run_end :: "string \<Rightarrow> reporter \<Rightarrow> reporter" where
  "on_run_end utc r =
     (let r1 = XUnit_write (tag ''testsuite'' (testsuite_attrs utc r) False None) r;
          r2 = foldl (\<lambda>r' t. XUnit_test t r') r1 (tests r);
          r3 = XUnit_write ''</testsuite>'' r2
      in epilogue r3)"

definition on_run_begin :: "reporter \<Rightarrow> reporter" where
  "on_run_begin r = consoleLog [] r"

definition on_suite_begin :: "string \<Rightarrow> reporter \<Rightarrow> error + reporter" where
  "on_suite_begin suite_title r =
     (let r1 = r\<lparr>indents := indents r + 1\<rparr>
      in case indent r1 of
           Inl e \<Rightarrow> Inl e
         | Inr i \<Rightarrow> Inr (consoleLog [LStr (color ''suite'' ''%s%s''), LStr i, LStr suite_title] r1))"

definition on_suite_end :: "reporter \<Rightarrow> reporter" where
  "on_suite_end r =
     (let r1 = r\<lparr>indents := indents r - 1\<rparr>
      in if indents r1 = 1 then consoleLog [] r1 else r1)"

text \<open>
  The reporter's own listeners. The listener of the run's end is registered with \<open>once\<close>:
  it is removed when it is called.
\<close>

fun handle :: "event \<Rightarrow> reporter \<Rightarrow> error + reporter" where
  "handle (EVENT_TEST_PENDING t) r = on_test_pending t r"
| "handle (EVENT_TEST_PASS t) r = on_test_pass t r"
| "handle (EVENT_TEST_FAIL t) r = on_test_fail t r"
| "handle (EVENT_RUN_END utc d) r =
     (if run_end_listener r then Inr (on_run_end utc (r\<lparr>run_end_listener := False\<rparr>))
      else Inr r)"
| "handle EVENT_RUN_BEGIN r = Inr (on_run_begin r)"
| "handle (EVENT_SUITE_BEGIN suite_title) r = on_suite_begin suite_title r"
| "handle EVENT_SUITE_END r = Inr (on_suite_end r)"

text \<open>
  Modelled from the spec: the counters behind \<open>this.stats\<close>, which mocha keeps in listeners
  of its own, registered before those of the reporter. The specification's RunSummary
  counts the test events: the total, the passed, the failed and the pending ones, and it
  holds the duration of the run once the run has ended.
\<close>

fun collect :: "event \<Rightarrow> stats \<Rightarrow> stats" where
  "collect (EVENT_TEST_PENDING t) s =
     s\<lparr>stats_tests := stats_tests s + 1, stats_pending := stats_pending s + 1\<rparr>"
| "collect (EVENT_TEST_PASS t) s =
     s\<lparr>stats_tests := stats_tests s + 1, stats_passes := stats_passes s + 1\<rparr>"
| "collect (EVENT_TEST_FAIL t) s =
     s\<lparr>stats_tests := stats_tests s + 1, stats_failures := stats_failures s + 1\<rparr>"
| "collect (EVENT_RUN_END utc d) s = s\<lparr>stats_duration := d\<rparr>"
| "collect ev s = s"

text \<open>One event: the statistics are updated, then the reporter's listener runs.\<close>

definition emit :: "event \<Rightarrow> reporter \<Rightarrow> error + reporter" where
  "emit ev r = handle ev (r\<lparr>stats := collect ev (stats r)\<rparr>)"

text \<open>A sequence of events; an exception thrown by a listener ends it.\<close>

fun run :: "event list \<Rightarrow> reporter \<Rightarrow> error + reporter" where
  "run [] r = Inr r"
| "run (ev # evs) r = (case emit ev r of Inl e \<Rightarrow> Inl e | Inr r' \<Rightarrow> run evs r')"

text \<open>
  The chunks that have reached the XML sink, in order: those of the file stream, else
  those of standard output, else the lines logged to the console by \<open>write\<close>, each a console
  call with the line as its only argument.
\<close>

fun fallback_chunk :: "console_call \<Rightarrow> string option" where
  "fallback_chunk (Log [LStr line]) = Some (line @ [CHR 0x0A])"
| "fallback_chunk c = None"

definition written :: "reporter \<Rightarrow> string list" where
  "written r =
     (case fileStream r of
        Some fs \<Rightarrow> written_to_file fs @ queued fs
      | None \<Rightarrow> if has_stdout r then stdout r else List.map_filter fallback_chunk (console r))"

subsection \<open>Notions used in the statements\<close>

text \<open>The tests that a sequence of events puts into the buffer, in the order of arrival.\<close>

fun buffered :: "event list \<Rightarrow> test list" where
  "buffered [] = []"
| "buffered (EVENT_TEST_PENDING t # evs) = t # buffered evs"
| "buffered (EVENT_TEST_PASS t # evs) = t # buffered evs"
| "buffered (EVENT_TEST_FAIL t # evs) = t # buffered evs"
| "buffered (ev # evs) = buffered evs"

fun is_test_event :: "event \<Rightarrow> bool" where
  "is_test_event (EVENT_TEST_PENDING t) = True"
| "is_test_event (EVENT_TEST_PASS t) = True"
| "is_test_event (EVENT_TEST_FAIL t) = True"
| "is_test_event ev = False"

fun is_pass :: "event \<Rightarrow> bool" where
  "is_pass (EVENT_TEST_PASS t) = True"
| "is_pass ev = False"

fun is_fail :: "event \<Rightarrow> bool" where
  "is_fail (EVENT_TEST_FAIL t) = True"
| "is_fail ev = False"

fun is_run_end :: "event \<Rightarrow> bool" where
  "is_run_end (EVENT_RUN_END utc d) = True"
| "is_run_end ev = False"

fun suite_begins :: "event list \<Rightarrow> nat" where
  "suite_begins [] = 0"
| "suite_begins (EVENT_SUITE_BEGIN s # evs) = Suc (suite_begins evs)"
| "suite_begins (ev # evs) = suite_begins evs"

fun suite_ends :: "event list \<Rightarrow> nat" where
  "suite_ends [] = 0"
| "suite_ends (EVENT_SUITE_END # evs) = Suc (suite_ends evs)"
| "suite_ends (ev # evs) = suite_ends evs"

text \<open>In every prefix the suite-end events do not outnumber the suite-begin events.\<close>

definition balanced :: "event list \<Rightarrow> bool" where
  "balanced evs =
     list_all (\<lambda>k. suite_ends (take k evs) \<le> suite_begins (take k evs))
       [0..<Suc (length evs)]"

text \<open>The suite-begin events minus the suite-end events.\<close>

definition net :: "event list \<Rightarrow> int" where
  "net evs = int (suite_begins evs) - int (suite_ends evs)"

text \<open>What a run of events has sent to the XML sink, or the exception that ended it.\<close>

definition report :: "event list \<Rightarrow> reporter \<Rightarrow> error + string list" where
  "report evs r = (case run evs r of Inl e \<Rightarrow> Inl e | Inr r' \<Rightarrow> Inr (written r'))"

definition quoted :: "string \<Rightarrow> string" where
  "quoted s = [CHR 0x22] @ s @ [CHR 0x22]"

text \<open>The opening tag of a \<open>testcase\<close> element up to its last attribute.\<close>

definition testcase_open :: "test \<Rightarrow> string" where
  "testcase_open t =
     ''<testcase classname='' @ quoted (escape (parent_fullTitle t)) @
     '' name='' @ quoted (escape (title t)) @
     '' time='' @ quoted (number_to_string (seconds (duration t)))"

text \<open>
  The invariant of an ended sink: the callback of \<open>end\<close> is kept, no chunk is lost, and
  the completion has been signalled exactly when the sink has finished with nothing queued.
\<close>

definition sink_inv :: "reporter \<Rightarrow> file_stream \<Rightarrow> int \<Rightarrow> reporter \<Rightarrow> bool" where
  "sink_inv r fs f r' =
     (\<exists>fs'. fileStream r' = Some fs' \<and> end_callback fs' = Some f \<and>
        written_to_file fs' @ queued fs' = written_to_file fs @ queued fs \<and>
        (if finished fs' then queued fs' = [] \<and> completed r' = completed r @ [f]
         else completed r' = completed r))"

subsection \<open>Example values\<close>

definition example_env :: environment where
  "example_env =
     \<lparr>MOCHA_FILE = None, has_createWriteStream = True, mkdirSync_throws = False,
      process_stdout = True\<rparr>"

definition browser_env :: environment where
  "browser_env =
     \<lparr>MOCHA_FILE = Some ''out.xml'', has_createWriteStream = False, mkdirSync_throws = False,
      process_stdout = False\<rparr>"

definition no_err :: err_object where
  "no_err = \<lparr>message = [], stack = [], showDiff = False, generatedDiff = []\<rparr>"

definition example_pass :: test where
  "example_pass =
     \<lparr>title = ''t1'', parent_fullTitle = ''A'', duration = Number (Fin 5),
      state = STATE_PASSED, isPending = False, speed = ''fast'', err = no_err\<rparr>"

definition example_fail :: test where
  "example_fail =
     \<lparr>title = ''t2'', parent_fullTitle = ''A'', duration = Undefined,
      state = STATE_FAILED, isPending = False, speed = ''fast'',
      err = \<lparr>message = ''x<y'', stack = ''at f'', showDiff = False, generatedDiff = []\<rparr>\<rparr>"

definition example_pending :: test where
  "example_pending =
     \<lparr>title = ''t3'', parent_fullTitle = ''A'', duration = Number NaN,
      state = STATE_UNSET, isPending = True, speed = ''fast'', err = no_err\<rparr>"

definition example_reporter :: reporter where
  "example_reporter = new_reporter example_env None None"

text \<open>A reporter that owns a file stream with three queued writes.\<close>

definition example_file_reporter :: reporter where
  "example_file_reporter =
     (new_reporter example_env None
        (Some ((createWriteStream ''out.xml'')\<lparr>queued := [''a'', ''b'', ''c'']\<rparr>)))"

subsection \<open>Reading the report back\<close>





text \<open>The production \<open>Char\<close>, for the characters of a document and for code points.\<close>

definition xml_char :: "char \<Rightarrow> bool" where
  "xml_char c = (c = CHR 0x09 \<or> c = CHR 0x0A \<or> c = CHR 0x0D \<or> 0x20 \<le> (of_char c :: nat))"

definition legal_code_point :: "int \<Rightarrow> bool" where
  "legal_code_point n =
     (n = 0x9 \<or> n = 0xA \<or> n = 0xD \<or> (0x20 \<le> n \<and> n \<le> 0xD7FF) \<or>
      (0xE000 \<le> n \<and> n \<le> 0xFFFD) \<or> (0x10000 \<le> n \<and> n \<le> 0x10FFFF))"


text \<open>The productions \<open>S\<close>, \<open>NameStartChar\<close>, \<open>NameChar\<close> and \<open>Name\<close>.\<close>

definition is_space :: "char \<Rightarrow> bool" where
  "is_space c = (c = CHR '' '' \<or> c = CHR 0x09 \<or> c = CHR 0x0A \<or> c = CHR 0x0D)"

definition is_name_start :: "char \<Rightarrow> bool" where
  "is_name_start c =
     (c \<in> set ''abcdefghijklmnopqrstuvwxyzABCDEFGHIJKLMNOPQRSTUVWXYZ_:'' \<or>
      (0xC0 \<le> (of_char c :: nat) \<and> (of_char c :: nat) \<le> 0xD6) \<or>
      (0xD8 \<le> (of_char c :: nat) \<and> (of_char c :: nat) \<le> 0xF6) \<or>
      0xF8 \<le> (of_char c :: nat))"

definition is_name_char :: "char \<Rightarrow> bool" where
  "is_name_char c = (is_name_start c \<or> c \<in> set ''0123456789-.'' \<or> c = CHR 0xB7)"


definition number_value :: "int \<Rightarrow> string \<Rightarrow> int" where
  "number_value base ds = foldl (\<lambda>v c. v * base + int (digit_value c)) 0 ds"

text \<open>
  What stands between the \<open>&\<close> and the \<open>;\<close> of a reference: the name of one of the five
  predefined entities, or the number of a legal character, in decimal after \<open>#\<close> and in
  hexadecimal after \<open>#x\<close>.
\<close>

definition reference_value :: "string \<Rightarrow> int option" where
  "reference_value ref =
     (if ref = ''lt'' then Some 0x3C
      else if ref = ''gt'' then Some 0x3E
      else if ref = ''amp'' then Some 0x26
      else if ref = ''apos'' then Some 0x27
      else if ref = ''quot'' then Some 0x22
      else if take 2 ref = ''#x'' \<and> drop 2 ref \<noteq> [] \<and> list_all is_hex_digit (drop 2 ref) then
        (if legal_code_point (number_value 16 (drop 2 ref))
         then Some (number_value 16 (drop 2 ref)) else None)
      else if take 1 ref = ''#'' \<and> drop 1 ref \<noteq> [] \<and> list_all is_digit (drop 1 ref) then
        (if legal_code_point (number_value 10 (drop 1 ref))
         then Some (number_value 10 (drop 1 ref)) else None)
      else None)"

text \<open>
  The text of an attribute value (\<open>att\<close> is true) or of character data: a \<open>&\<close> must begin
  a reference, which stands for its character, and a \<open><\<close> is not allowed. In an attribute
  value a white space character that is written out becomes a space; every other
  character stands for itself (\<open>parse_document\<close> has checked before that it is an allowed
  one). \<open>reference\<close> collects the characters of a reference up to its \<open>;\<close>.
\<close>

fun decode :: "bool \<Rightarrow> string \<Rightarrow> int list option"
  and reference :: "bool \<Rightarrow> string \<Rightarrow> string \<Rightarrow> int list option" where
  "decode att [] = Some []"
| "decode att (c # cs) =
     (if c = CHR ''&'' then reference att [] cs
      else if c = CHR ''<'' then None
      else if att \<and> is_space c then map_option ((#) 0x20) (decode att cs)
      else map_option ((#) (of_char c)) (decode att cs))"
| "reference att ref [] = None"
| "reference att ref (c # cs) =
     (if c = CHR '';'' then
        (case reference_value ref of
           None \<Rightarrow> None
         | Some n \<Rightarrow> map_option ((#) n) (decode att cs))
      else reference att (ref @ [c]) cs)"

















text \<open>The text of a failure before it is escaped: the message, the diff and the stack.\<close>

definition failure_text :: "err_object \<Rightarrow> string" where
  "failure_text e =
     message e @ (if showDiff e then [CHR 0x0A] @ generatedDiff e else []) @ [CHR 0x0A] @ stack e"




definition text_safe :: "string \<Rightarrow> bool" where
  "text_safe s = list_all (\<lambda>c. xml_char c \<and> c \<noteq> CHR 0x0D) s"









section \<open>Properties\<close>

subsection \<open>Escaping and the text of numbers\<close>

lemma escape_Nil [simp]: "escape [] = []"
  by (simp add: escape_def)

lemma escape_Cons: "escape (c # s) = escape_char c @ escape s"
  by (simp add: escape_def)


lemma escape_plain: "set s \<inter> {CHR ''&'', CHR ''<'', CHR ''>'', CHR 0x22} = {} \<Longrightarrow> escape s = s"
  by (induction s) (auto simp: escape_Cons escape_char_def)

lemma digit_chars: "k < 10 \<Longrightarrow> ''0123456789'' ! k \<in> set ''0123456789''"
  by (rule nth_mem) simp

lemma set_show_nat: "set (show_nat k) \<subseteq> set ''0123456789''"
proof (induction k rule: show_nat.induct)
  case (1 k)
  show ?case
  proof (cases "k < 10")
    case True
    then show ?thesis using digit_chars [of k] by (subst show_nat.simps) simp
  next
    case False
    have "k mod 10 < 10" by simp
    then have "''0123456789'' ! (k mod 10) \<in> set ''0123456789''" by (rule digit_chars)
    with False 1 show ?thesis by (subst show_nat.simps) simp
  qed
qed

lemma set_frac_digits: "0 < q \<Longrightarrow> p < q \<Longrightarrow> set (frac_digits fuel p q) \<subseteq> set ''0123456789''"
proof (induction fuel arbitrary: p)
  case 0
  then show ?case by simp
next
  case (Suc fuel)
  have lt: "(10 * p) div q < 10" using Suc.prems
    by (simp add: less_mult_imp_div_less)
  have "(10 * p) mod q < q" using Suc.prems by simp
  then have "set (frac_digits fuel ((10 * p) mod q) q) \<subseteq> set ''0123456789''"
    using Suc.IH Suc.prems by blast
  with digit_chars [OF lt] show ?case by simp
qed

lemma digit_not_markup:
  "c \<in> set ''0123456789'' \<Longrightarrow> c \<notin> {CHR ''&'', CHR ''<'', CHR ''>'', CHR 0x22}"
  by auto

lemma number_to_string_not_markup:
  assumes "c \<in> set (number_to_string x)"
  shows "c \<notin> {CHR ''&'', CHR ''<'', CHR ''>'', CHR 0x22}"
proof (cases x)
  case (Fin y)
  obtain p q where pq: "quotient_of y = (p, q)" by (cases "quotient_of y")
  then have q: "0 < q" by (rule quotient_of_denom_pos)
  define a b where "a = nat \<bar>p\<bar>" and "b = nat q"
  have b: "0 < b" and m: "a mod b < b" using q by (simp_all add: b_def)
  have str: "number_to_string x =
      (if p < 0 then ''-'' else []) @ show_nat (a div b) @
      (if a mod b = 0 then [] else ''.'' @ frac_digits 20 (a mod b) b)"
    by (simp add: Fin pq a_def b_def Let_def)
  from assms consider "c = CHR ''-''" | "c = CHR ''.''" | "c \<in> set (show_nat (a div b))"
    | "c \<in> set (frac_digits 20 (a mod b) b)"
    unfolding str by (auto split: if_splits)
  then show ?thesis
  proof cases
    case 3
    then have "c \<in> set ''0123456789''" using set_show_nat by blast
    then show ?thesis by (rule digit_not_markup)
  next
    case 4
    then have "c \<in> set ''0123456789''" using set_frac_digits [OF b m] by blast
    then show ?thesis by (rule digit_not_markup)
  qed simp_all
next
  case NaN
  with assms show ?thesis by auto
next
  case PosInf
  with assms show ?thesis by auto
next
  case NegInf
  with assms show ?thesis by auto
qed

lemma escape_number [simp]: "escape (number_to_string x) = number_to_string x"
  using number_to_string_not_markup [of _ x] by (intro escape_plain) blast

lemma number_to_string_int: "number_to_string (Fin (of_int i)) = show_int i"
  by (simp add: show_int_def Let_def)

lemma escape_char_no_lt: "CHR ''<'' \<notin> set (escape_char c)"
  by (simp add: escape_char_def)

lemma escape_no_lt: "CHR ''<'' \<notin> set (escape s)"
  by (induction s) (simp_all add: escape_Cons escape_char_no_lt)

lemma failure_content_no_lt: "CHR ''<'' \<notin> set (failure_content e)"
  by (simp add: failure_content_def Let_def escape_no_lt)

lemma number_to_string_zero: "number_to_string (Fin 0) = ''0''"
  using number_to_string_int [of 0] by (simp add: show_int_def show_nat.simps)

lemma escape_show_int: "escape (show_int i) = show_int i"
  using escape_number [of "Fin (of_int i)"] by (simp only: number_to_string_int)

subsection \<open>The text of a testcase tag\<close>

lemma tag_testcase:
  "tag ''testcase'' (test_attrs t) close content =
     testcase_open t @ (if close then ''/>'' else ''>'') @
     (if truthy_string content
      then the content @ ''</testcase'' @ (if close then ''/>'' else ''>'')
      else [])"
  by (simp add: tag_def test_attrs_def pair_def testcase_open_def quoted_def)

subsection \<open>The constructor\<close>

lemma XUnit_initial:
  "XUnit env opts = Inr r0 \<Longrightarrow>
   indents r0 = 0 \<and> tests r0 = [] \<and> stats r0 = new_stats \<and> run_end_listener r0 \<and>
   written r0 = [] \<and> console r0 = [] \<and> suiteName r0 = resolved_suiteName opts"
  by (auto simp: XUnit_def new_reporter_def written_def createWriteStream_def
        List.map_filter_simps split: if_splits)

text \<open>
  Claim C6. The constructor throws the unsupported error exactly when an output path is
  resolved, from the environment variable or from the options, and the runtime has no
  \<open>fs.createWriteStream\<close>. The error is the result of the construction, so there is no
  reporter and nothing has been written; a constructor that returns has written nothing
  either.
\<close>

theorem unsupported_iff:
  "(\<exists>m. XUnit env opts = Inl (UnsupportedError m)) =
     ((truthy_string (MOCHA_FILE env) \<or>
       (\<exists>ro. reporter_options_of opts = Some ro \<and> truthy_string (ro_output ro))) \<and>
      \<not> has_createWriteStream env) \<and>
   (\<forall>r. XUnit env opts = Inr r \<longrightarrow> written r = [] \<and> stdout r = [] \<and> console r = [])"
  by (auto simp: XUnit_def outputPath_def new_reporter_def written_def createWriteStream_def
        List.map_filter_simps split: option.splits)

theorem unsupported_iff_witness:
  "XUnit browser_env None = Inl (UnsupportedError ''file output not supported in browser'') \<and>
   XUnit (browser_env\<lparr>has_createWriteStream := True\<rparr>) None \<noteq>
     Inl (UnsupportedError ''file output not supported in browser'') \<and>
   XUnit (browser_env\<lparr>MOCHA_FILE := None\<rparr>) None \<noteq>
     Inl (UnsupportedError ''file output not supported in browser'') \<and>
   written example_reporter = []"
  using unsupported_iff [of browser_env None]
    unsupported_iff [of "browser_env\<lparr>has_createWriteStream := True\<rparr>" None]
    unsupported_iff [of "browser_env\<lparr>MOCHA_FILE := None\<rparr>" None]
    unsupported_iff [of example_env None]
  by (simp add: browser_env_def example_env_def example_reporter_def reporter_options_of_def
        XUnit_def outputPath_def)

text \<open>
  Claim C7, as the source has it. The environment variable is read first and is used
  whenever it holds a non-empty string. The \<open>output\<close> option is used only when the variable
  is unset or empty (and the option is a non-empty string); when both hold a non-empty
  string the variable wins.
\<close>

theorem outputPath_precedence:
  "outputPath env opts =
     (if truthy_string (MOCHA_FILE env) then MOCHA_FILE env
      else case reporter_options_of opts of
             None \<Rightarrow> MOCHA_FILE env
           | Some ro \<Rightarrow> if truthy_string (ro_output ro) then ro_output ro else MOCHA_FILE env)"
  by (simp add: outputPath_def split: option.splits)

theorem outputPath_precedence_witness:
  "outputPath (example_env\<lparr>MOCHA_FILE := Some ''env.xml''\<rparr>)
     (Some \<lparr>reporterOptions = Some \<lparr>ro_output = Some ''out.xml'', ro_suiteName = None\<rparr>\<rparr>)
   = Some ''env.xml'' \<and>
   outputPath example_env
     (Some \<lparr>reporterOptions = Some \<lparr>ro_output = Some ''out.xml'', ro_suiteName = None\<rparr>\<rparr>)
   = Some ''out.xml''"
  using outputPath_precedence [of "example_env\<lparr>MOCHA_FILE := Some ''env.xml''\<rparr>"
      "Some \<lparr>reporterOptions = Some \<lparr>ro_output = Some ''out.xml'', ro_suiteName = None\<rparr>\<rparr>"]
    outputPath_precedence [of example_env
      "Some \<lparr>reporterOptions = Some \<lparr>ro_output = Some ''out.xml'', ro_suiteName = None\<rparr>\<rparr>"]
  by (simp add: example_env_def reporter_options_of_def)

text \<open>
  The claim as it was stated fails: with the variable set to the empty string, the
  \<open>output\<close> option is used although the variable is set.
\<close>

theorem outputPath_empty_variable:
  "MOCHA_FILE (example_env\<lparr>MOCHA_FILE := Some []\<rparr>) \<noteq> None \<and>
   outputPath (example_env\<lparr>MOCHA_FILE := Some []\<rparr>)
     (Some \<lparr>reporterOptions = Some \<lparr>ro_output = Some ''out.xml'', ro_suiteName = None\<rparr>\<rparr>)
   = Some ''out.xml''"
  by (simp add: outputPath_def reporter_options_of_def example_env_def)

subsection \<open>Indentation\<close>

text \<open>
  Claim C9. A suite-end event lowers the indentation depth by one, and a blank line is
  logged exactly when the depth has come back to 1, the depth of the outermost suite,
  whose lines are not indented.
\<close>

theorem suite_end_indentation:
  "emit EVENT_SUITE_END r = Inr (on_suite_end r) \<and>
   indents (on_suite_end r) = indents r - 1 \<and>
   console (on_suite_end r) =
     (if indents (on_suite_end r) = 1 then console r @ [Log []] else console r) \<and>
   (indents r = 1 \<longrightarrow> indent r = Inr [])"
  by (simp add: emit_def on_suite_end_def consoleLog_def Let_def indent_def)

theorem suite_end_indentation_witness:
  "indents (on_suite_end (example_reporter\<lparr>indents := 2\<rparr>)) = 1 \<and>
   console (on_suite_end (example_reporter\<lparr>indents := 2\<rparr>)) = [Log []] \<and>
   indents (on_suite_end (example_reporter\<lparr>indents := 1\<rparr>)) = 0 \<and>
   console (on_suite_end (example_reporter\<lparr>indents := 1\<rparr>)) = [] \<and>
   indent (example_reporter\<lparr>indents := 1\<rparr>) = Inr []"
  using suite_end_indentation [of "example_reporter\<lparr>indents := 2\<rparr>"]
    suite_end_indentation [of "example_reporter\<lparr>indents := 1\<rparr>"]
  by (simp add: example_reporter_def new_reporter_def)

lemma indent_tests [simp]: "indent (r\<lparr>tests := ts\<rparr>) = indent r"
  by (simp add: indent_def)

lemma indent_stats [simp]: "indent (r\<lparr>stats := s\<rparr>) = indent r"
  by (simp add: indent_def)

lemma indents_consoleLog [simp]: "indents (consoleLog args r) = indents r"
  by (simp add: consoleLog_def)

lemma indents_XUnit_write [simp]: "indents (XUnit_write l r) = indents r"
  by (simp add: XUnit_write_def consoleLog_def split: option.splits)

lemma indents_foldl_test [simp]: "indents (foldl (\<lambda>r' t. XUnit_test t r') r ts) = indents r"
  by (induction ts arbitrary: r) (simp_all add: XUnit_test_def)

lemma indents_on_run_end [simp]: "indents (on_run_end utc r) = indents r"
  by (simp add: on_run_end_def epilogue_def Let_def)

lemma emit_indents:
  "emit ev r = Inr r' \<Longrightarrow> indents r' = indents r + net [ev]"
  by (cases ev)
     (auto simp: emit_def net_def on_test_pending_def on_test_pass_def on_test_fail_def
        on_suite_begin_def on_suite_end_def on_run_begin_def Let_def
        split: sum.splits if_splits)

lemma emit_ok:
  "0 \<le> indents r \<Longrightarrow> \<exists>r'. emit ev r = Inr r'"
  by (cases ev)
     (auto simp: emit_def net_def on_test_pending_def on_test_pass_def on_test_fail_def
        on_suite_begin_def indent_def Let_def)

lemma net_Cons: "net (ev # evs) = net [ev] + net evs"
  by (cases ev) (simp_all add: net_def)

lemma run_indents: "run evs r = Inr r' \<Longrightarrow> indents r' = indents r + net evs"
proof (induction evs arbitrary: r)
  case Nil
  then show ?case by (simp add: net_def)
next
  case (Cons ev evs)
  then obtain r1 where e: "emit ev r = Inr r1" and rest: "run evs r1 = Inr r'"
    by (auto split: sum.splits)
  from Cons.IH [OF rest] emit_indents [OF e] show ?case
    by (simp add: net_Cons [of ev evs])
qed

lemma run_ok:
  "\<forall>k\<le>length evs. 0 \<le> indents r + net (take k evs) \<Longrightarrow> \<exists>r'. run evs r = Inr r'"
proof (induction evs arbitrary: r)
  case Nil
  then show ?case by simp
next
  case (Cons ev evs)
  from Cons.prems have 0: "0 \<le> indents r + net (take 0 (ev # evs))" by blast
  from Cons.prems have 1: "0 \<le> indents r + net (take 1 (ev # evs))"
    by (metis One_nat_def Suc_leI length_Cons zero_less_Suc)
  from 0 have i0: "0 \<le> indents r" by (simp add: net_def)
  from 1 have i1: "0 \<le> indents r + net [ev]" by simp
  from emit_ok [OF i0] obtain r1 where e: "emit ev r = Inr r1" by blast
  have "\<forall>k\<le>length evs. 0 \<le> indents r1 + net (take k evs)"
  proof (intro allI impI)
    fix k assume "k \<le> length evs"
    then have "Suc k \<le> length (ev # evs)" by simp
    with Cons.prems have "0 \<le> indents r + net (take (Suc k) (ev # evs))" by blast
    then show "0 \<le> indents r1 + net (take k evs)"
      using emit_indents [OF e] by (simp add: net_Cons [of ev "take k evs"])
  qed
  from Cons.IH [OF this] e show ?case by simp
qed

lemma balanced_prefix: "balanced evs \<Longrightarrow> k \<le> length evs \<Longrightarrow> 0 \<le> net (take k evs)"
proof -
  assume "balanced evs" and "k \<le> length evs"
  then have "k \<in> set [0..<Suc (length evs)]" by (simp del: upt_Suc)
  with \<open>balanced evs\<close> have "suite_ends (take k evs) \<le> suite_begins (take k evs)"
    unfolding balanced_def list_all_iff by blast
  then show ?thesis by (simp add: net_def)
qed

lemma unbalanced_prefix:
  "\<not> balanced evs \<Longrightarrow> \<exists>k\<le>length evs. net (take k evs) < 0"
proof -
  assume "\<not> balanced evs"
  then obtain k where "k \<in> set [0..<Suc (length evs)]"
    and "\<not> suite_ends (take k evs) \<le> suite_begins (take k evs)"
    unfolding balanced_def list_all_iff by blast
  then have "k \<le> length evs \<and> net (take k evs) < 0" by (simp add: net_def del: upt_Suc)
  then show ?thesis by blast
qed

lemma run_reaches_negative:
  "0 \<le> indents r \<Longrightarrow> \<exists>k\<le>length evs. indents r + net (take k evs) < 0 \<Longrightarrow>
   \<exists>k\<le>length evs. \<exists>rk. run (take k evs) r = Inr rk \<and> indents rk < 0"
proof (induction evs arbitrary: r)
  case Nil
  then show ?case by (simp add: net_def)
next
  case (Cons ev evs)
  from Cons.prems obtain k where k: "k \<le> length (ev # evs)"
    and neg: "indents r + net (take k (ev # evs)) < 0" by blast
  from neg Cons.prems(1) obtain j where kj: "k = Suc j"
    by (cases k) (simp_all add: net_def)
  from emit_ok [OF Cons.prems(1)] obtain r1 where e: "emit ev r = Inr r1" by blast
  have i1: "indents r1 = indents r + net [ev]" by (rule emit_indents [OF e])
  show ?case
  proof (cases "indents r1 < 0")
    case True
    have "run (take 1 (ev # evs)) r = Inr r1" using e by simp
    moreover have "1 \<le> length (ev # evs)" by simp
    ultimately show ?thesis using True by blast
  next
    case False
    then have nn: "0 \<le> indents r1" by simp
    have "j \<le> length evs" using k kj by simp
    moreover have "indents r1 + net (take j evs) < 0"
      using neg kj i1 by (simp add: net_Cons [of ev "take j evs"])
    ultimately have "\<exists>k\<le>length evs. indents r1 + net (take k evs) < 0" by blast
    from Cons.IH [OF nn this] obtain m rk where m: "m \<le> length evs"
      and rk: "run (take m evs) r1 = Inr rk" "indents rk < 0" by blast
    have "run (take (Suc m) (ev # evs)) r = Inr rk" using e rk by simp
    moreover have "Suc m \<le> length (ev # evs)" using m by simp
    ultimately show ?thesis using rk(2) by blast
  qed
qed

lemma negative_indents_raise:
  assumes "indents r < 0"
  shows "emit (EVENT_TEST_PENDING t) r = Inl RangeError"
    and "emit (EVENT_TEST_PASS t) r = Inl RangeError"
    and "emit (EVENT_TEST_FAIL t) r = Inl RangeError"
    and "(emit (EVENT_SUITE_BEGIN s) r = Inl RangeError) = (indents r < - 1)"
  using assms
  by (auto simp: emit_def on_test_pending_def on_test_pass_def on_test_fail_def
        on_suite_begin_def indent_def Let_def)

text \<open>
  Claim C10, as the source has it. From a fresh reporter, a sequence of events in which no
  prefix has more
  suite-end than suite-begin events runs without an exception, and the indentation counter
  is never negative. A sequence that is not balanced reaches a state with a negative
  counter. In a state reached with more suite-end than suite-begin events the counter is
  negative and the handler of a pending, passed or failed test throws a RangeError from
  \<open>indent\<close>; the handler of a suite begin, which increments first, throws it when the counter
  is below \<open>-1\<close>.
\<close>

theorem indent_safety:
  assumes "XUnit env opts = Inr r0"
  shows "(balanced evs \<longrightarrow>
            (\<forall>k\<le>length evs. \<exists>rk. run (take k evs) r0 = Inr rk \<and> 0 \<le> indents rk)) \<and>
         (\<not> balanced evs \<longrightarrow>
            (\<exists>k\<le>length evs. \<exists>rk. run (take k evs) r0 = Inr rk \<and> indents rk < 0)) \<and>
         (run evs r0 = Inr r \<and> suite_begins evs < suite_ends evs \<longrightarrow>
            indents r < 0 \<and>
            emit (EVENT_TEST_PENDING t) r = Inl RangeError \<and>
            emit (EVENT_TEST_PASS t) r = Inl RangeError \<and>
            emit (EVENT_TEST_FAIL t) r = Inl RangeError \<and>
            (emit (EVENT_SUITE_BEGIN s) r = Inl RangeError) = (indents r < - 1))"
proof (intro conjI impI allI)
  have i0: "indents r0 = 0" using XUnit_initial [OF assms] by simp
  {
    fix k assume b: "balanced evs" and k: "k \<le> length evs"
    have "\<forall>j\<le>length (take k evs). 0 \<le> indents r0 + net (take j (take k evs))"
    proof (intro allI impI)
      fix j assume "j \<le> length (take k evs)"
      then have "j \<le> k" "j \<le> length evs" using k by simp_all
      then show "0 \<le> indents r0 + net (take j (take k evs))"
        using balanced_prefix [OF b, of j] i0 by (simp add: min_absorb1)
    qed
    from run_ok [OF this] obtain rk where rk: "run (take k evs) r0 = Inr rk" by blast
    from run_indents [OF rk] balanced_prefix [OF b k] i0 have "0 \<le> indents rk" by simp
    with rk show "\<exists>rk. run (take k evs) r0 = Inr rk \<and> 0 \<le> indents rk" by blast
  }
  {
    assume "\<not> balanced evs"
    from unbalanced_prefix [OF this] i0
    have "\<exists>k\<le>length evs. indents r0 + net (take k evs) < 0" by simp
    moreover have "0 \<le> indents r0" using i0 by simp
    ultimately show "\<exists>k\<le>length evs. \<exists>rk. run (take k evs) r0 = Inr rk \<and> indents rk < 0"
      by (intro run_reaches_negative)
  }
  {
    assume a: "run evs r0 = Inr r \<and> suite_begins evs < suite_ends evs"
    then have "indents r = net evs" using run_indents [of evs r0 r] i0 by simp
    with a show neg: "indents r < 0" by (simp add: net_def)
    from negative_indents_raise [OF neg]
    show "emit (EVENT_TEST_PENDING t) r = Inl RangeError"
      "emit (EVENT_TEST_PASS t) r = Inl RangeError"
      "emit (EVENT_TEST_FAIL t) r = Inl RangeError"
      "(emit (EVENT_SUITE_BEGIN s) r = Inl RangeError) = (indents r < - 1)"
      by blast+
  }
qed

theorem indent_safety_witness:
  "(\<exists>rk. run [EVENT_SUITE_BEGIN ''A'', EVENT_TEST_PASS example_pass, EVENT_SUITE_END]
           example_reporter = Inr rk \<and> 0 \<le> indents rk) \<and>
   (\<exists>k rk. run (take k [EVENT_SUITE_END, EVENT_TEST_PASS example_pass]) example_reporter =
           Inr rk \<and> indents rk < 0) \<and>
   emit (EVENT_TEST_PASS example_pass) (example_reporter\<lparr>indents := - 1\<rparr>) = Inl RangeError"
proof -
  let ?ok = "[EVENT_SUITE_BEGIN ''A'', EVENT_TEST_PASS example_pass, EVENT_SUITE_END]"
  let ?bad = "[EVENT_SUITE_END, EVENT_TEST_PASS example_pass]"
  have c: "XUnit example_env None = Inr example_reporter"
    by (simp add: XUnit_def outputPath_def reporter_options_of_def example_env_def
          example_reporter_def)
  have b: "balanced ?ok" by (simp add: balanced_def)
  have nb: "\<not> balanced ?bad" by (simp add: balanced_def)
  have r: "run [EVENT_SUITE_END] example_reporter = Inr (example_reporter\<lparr>indents := - 1\<rparr>)"
    by (simp add: emit_def on_suite_end_def example_reporter_def new_reporter_def)
  have "\<forall>k\<le>length ?ok. \<exists>rk. run (take k ?ok) example_reporter = Inr rk \<and> 0 \<le> indents rk"
    using indent_safety [OF c, of ?ok] b by blast
  then have 1: "\<exists>rk. run (take (length ?ok) ?ok) example_reporter = Inr rk \<and> 0 \<le> indents rk"
    by blast
  have "\<exists>k\<le>length ?bad. \<exists>rk. run (take k ?bad) example_reporter = Inr rk \<and> indents rk < 0"
    using indent_safety [OF c, of ?bad] nb by blast
  then have 2: "\<exists>k rk. run (take k ?bad) example_reporter = Inr rk \<and> indents rk < 0"
    by blast
  have 3: "emit (EVENT_TEST_PASS example_pass) (example_reporter\<lparr>indents := - 1\<rparr>) =
      Inl RangeError"
    using indent_safety [OF c, of "[EVENT_SUITE_END]" "example_reporter\<lparr>indents := - 1\<rparr>"] r
    by simp
  from 1 have 1: "\<exists>rk. run ?ok example_reporter = Inr rk \<and> 0 \<le> indents rk"
    by (simp del: run.simps)
  from 1 2 3 show ?thesis by blast
qed

text \<open>
  The claim as it was stated fails for the handler of a suite begin. After one suite end
  too many the counter is \<open>-1\<close>; a suite begin makes it 0 before it calls \<open>indent\<close>, which
  does not throw, and the test that follows is logged as well: the suite-end events have
  outnumbered the suite-begin events and no later handler throws.
\<close>

theorem unbalanced_run_without_error:
  "\<not> balanced [EVENT_SUITE_END, EVENT_SUITE_BEGIN ''A'', EVENT_TEST_PASS example_pass] \<and>
   suite_begins [EVENT_SUITE_END] < suite_ends [EVENT_SUITE_END] \<and>
   map_sum id indents (run [EVENT_SUITE_END] example_reporter) = Inr (- 1) \<and>
   map_sum id indents
     (run [EVENT_SUITE_END, EVENT_SUITE_BEGIN ''A'', EVENT_TEST_PASS example_pass]
        example_reporter) = Inr 0"
  by (simp add: balanced_def emit_def on_suite_end_def on_suite_begin_def on_test_pass_def
        indent_def consoleLog_def Let_def example_reporter_def new_reporter_def)

subsection \<open>The document written at the end of the run\<close>

lemma map_filter_append: "List.map_filter f (xs @ ys) = List.map_filter f xs @ List.map_filter f ys"
  by (simp add: List.map_filter_def)

lemma written_XUnit_write: "written (XUnit_write l r) = written r @ [l @ [CHR 0x0A]]"
  by (simp add: written_def XUnit_write_def stream_write_def consoleLog_def map_filter_append
        List.map_filter_simps split: option.splits)

lemma written_foldl_test:
  "written (foldl (\<lambda>r' t. XUnit_test t r') r ts) = written r @ map (\<lambda>t. test_line t @ [CHR 0x0A]) ts"
  by (induction ts arbitrary: r) (simp_all add: XUnit_test_def written_XUnit_write)

lemma written_epilogue: "written (epilogue r) = written r"
  by (simp add: written_def epilogue_def map_filter_append List.map_filter_simps
        split: option.splits)

lemma written_on_run_end:
  "written (on_run_end utc r) =
     written r @ [tag ''testsuite'' (testsuite_attrs utc r) False None @ [CHR 0x0A]] @
     map (\<lambda>t. test_line t @ [CHR 0x0A]) (tests r) @ [''</testsuite>'' @ [CHR 0x0A]]"
proof -
  have t: "tests (XUnit_write l r) = tests r" for l r
    by (simp add: XUnit_write_def consoleLog_def split: option.splits)
  show ?thesis
    by (simp add: on_run_end_def Let_def written_epilogue written_XUnit_write written_foldl_test)
qed

lemma emit_frame:
  assumes "emit ev r = Inr r'" and "\<not> is_run_end ev"
  shows "tests r' = tests r @ buffered [ev]" and "stats r' = collect ev (stats r)"
    and "written r' = written r" and "suiteName r' = suiteName r"
    and "run_end_listener r' = run_end_listener r"
  using assms
  by (cases ev;
      auto simp: emit_def on_test_pending_def on_test_pass_def on_test_fail_def
        on_suite_begin_def on_suite_end_def on_run_begin_def consoleLog_def written_def
        map_filter_append List.map_filter_simps Let_def
        split: sum.splits if_splits option.splits)+

lemma buffered_Cons: "buffered (ev # evs) = buffered [ev] @ buffered evs"
  by (cases ev) simp_all

lemma run_frame:
  assumes "run evs r = Inr r'" and "list_all (\<lambda>ev. \<not> is_run_end ev) evs"
  shows "tests r' = tests r @ buffered evs \<and> stats r' = foldl (\<lambda>s ev. collect ev s) (stats r) evs \<and>
     written r' = written r \<and> suiteName r' = suiteName r \<and>
     run_end_listener r' = run_end_listener r"
  using assms
proof (induction evs arbitrary: r)
  case Nil
  then show ?case by simp
next
  case (Cons ev evs)
  then obtain r1 where e: "emit ev r = Inr r1" and rest: "run evs r1 = Inr r'"
    by (auto split: sum.splits)
  from Cons.prems have n: "\<not> is_run_end ev" and ns: "list_all (\<lambda>ev. \<not> is_run_end ev) evs"
    by simp_all
  from Cons.IH [OF rest ns] emit_frame [OF e n] show ?case
    by (simp add: buffered_Cons [of ev evs])
qed

lemma run_append:
  "run (xs @ ys) r = (case run xs r of Inl e \<Rightarrow> Inl e | Inr r' \<Rightarrow> run ys r')"
  by (induction xs arbitrary: r) (simp_all split: sum.splits)

lemma emit_run_end:
  "run_end_listener r \<Longrightarrow>
   emit (EVENT_RUN_END utc d) r =
     Inr (on_run_end utc (r\<lparr>stats := (stats r)\<lparr>stats_duration := d\<rparr>, run_end_listener := False\<rparr>))"
  by (simp add: emit_def)

lemma written_frame [simp]:
  "written (r\<lparr>stats := s\<rparr>) = written r" "written (r\<lparr>run_end_listener := b\<rparr>) = written r"
  by (simp_all add: written_def split: option.splits)

lemma testsuite_attrs_frame [simp]:
  "testsuite_attrs utc (r\<lparr>run_end_listener := b\<rparr>) = testsuite_attrs utc r"
  by (simp add: testsuite_attrs_def)

lemma report_run_end:
  assumes "XUnit env opts = Inr r0" and "list_all (\<lambda>ev. \<not> is_run_end ev) evs"
    and "run evs r0 = Inr r"
  shows "report (evs @ [EVENT_RUN_END utc d]) r0 =
           Inr ((tag ''testsuite''
                   (testsuite_attrs utc (r\<lparr>stats := (stats r)\<lparr>stats_duration := d\<rparr>\<rparr>)) False None @
                 [CHR 0x0A]) #
                map (\<lambda>t. test_line t @ [CHR 0x0A]) (tests r) @
                [''</testsuite>'' @ [CHR 0x0A]])"
proof -
  note init = XUnit_initial [OF assms(1)]
  note fr = run_frame [OF assms(3) assms(2)]
  have l: "run_end_listener r" using fr init by simp
  have w: "written r = []" using fr init by simp
  show ?thesis
    using w by (simp add: report_def run_append assms(3) emit_run_end [OF l] written_on_run_end)
qed

lemma run_buffer:
  assumes "XUnit env opts = Inr r0" and "list_all (\<lambda>ev. \<not> is_run_end ev) evs"
    and "run evs r0 = Inr r"
  shows "tests r = buffered evs"
  using run_frame [OF assms(3) assms(2)] XUnit_initial [OF assms(1)] by simp

lemma collect_counts:
  "stats_tests (foldl (\<lambda>s ev. collect ev s) s evs) = stats_tests s + int (length (filter is_test_event evs)) \<and>
   stats_failures (foldl (\<lambda>s ev. collect ev s) s evs) = stats_failures s + int (length (filter is_fail evs)) \<and>
   stats_passes (foldl (\<lambda>s ev. collect ev s) s evs) = stats_passes s + int (length (filter is_pass evs))"
proof (induction evs arbitrary: s)
  case Nil
  then show ?case by simp
next
  case (Cons ev evs)
  show ?case using Cons.IH [of "collect ev s"] by (cases ev) simp_all
qed

lemma test_events_run:
  "list_all is_test_event evs \<Longrightarrow> 0 \<le> indents r \<Longrightarrow> \<exists>r'. run evs r = Inr r'"
proof (induction evs arbitrary: r)
  case Nil
  then show ?case by simp
next
  case (Cons ev evs)
  from emit_ok [OF Cons.prems(2)] obtain r1 where e: "emit ev r = Inr r1" by blast
  have "net [ev] = 0" using Cons.prems(1) by (cases ev) (simp_all add: net_def)
  with emit_indents [OF e] Cons.prems(2) have "0 \<le> indents r1" by simp
  with Cons.IH [of r1] Cons.prems(1) e show ?case by simp
qed

lemma test_event_not_run_end: "is_test_event ev \<Longrightarrow> \<not> is_run_end ev"
  by (cases ev) simp_all

lemma tag_testsuite:
  "tag ''testsuite'' (testsuite_attrs utc r) False None =
     ''<testsuite name='' @ quoted (escape (suiteName r)) @
     '' tests='' @ quoted (show_int (stats_tests (stats r))) @
     '' failures='' @ quoted ''0'' @
     '' errors='' @ quoted (show_int (stats_failures (stats r))) @
     '' skipped='' @ quoted (show_int
        (stats_tests (stats r) - stats_failures (stats r) - stats_passes (stats r))) @
     '' timestamp='' @ quoted (escape utc) @
     '' time='' @ quoted (number_to_string (seconds (stats_duration (stats r)))) @ ''>''"
  by (simp add: tag_def testsuite_attrs_def pair_def quoted_def number_to_string_int
        escape_show_int number_to_string_zero escape_Cons escape_char_def
        del: number_to_string.simps of_int_diff)

text \<open>
  Claim C1. For a sequence of N test events (pending, pass and fail in any mix) followed by
  the end of the run, the first line written is the opening tag of the root element, in
  which \<open>tests\<close> is N, \<open>failures\<close> is 0, \<open>errors\<close> is the number of fail events and \<open>skipped\<close> is
  N minus the fail events minus the pass events.
\<close>

theorem root_counts:
  assumes "XUnit env opts = Inr r0" and "list_all is_test_event evs"
  shows "\<exists>children.
           report (evs @ [EVENT_RUN_END utc d]) r0 =
             Inr ((''<testsuite name='' @ quoted (escape (resolved_suiteName opts)) @
                   '' tests='' @ quoted (show_int (int (length evs))) @
                   '' failures='' @ quoted ''0'' @
                   '' errors='' @ quoted (show_int (int (length (filter is_fail evs)))) @
                   '' skipped='' @ quoted (show_int
                      (int (length evs) - int (length (filter is_fail evs)) -
                       int (length (filter is_pass evs)))) @
                   '' timestamp='' @ quoted (escape utc) @
                   '' time='' @ quoted (number_to_string (seconds d)) @ ''>'' @ [CHR 0x0A]) #
                  children)"
proof -
  note init = XUnit_initial [OF assms(1)]
  from test_events_run [OF assms(2), of r0] init obtain r where r: "run evs r0 = Inr r" by auto
  have ne: "list_all (\<lambda>ev. \<not> is_run_end ev) evs"
    using assms(2) by (simp add: list_all_iff test_event_not_run_end)
  note fr = run_frame [OF r ne]
  have all: "filter is_test_event evs = evs" using assms(2) by (simp add: list_all_iff)
  have st: "stats_tests (stats r) = int (length evs)"
    "stats_failures (stats r) = int (length (filter is_fail evs))"
    "stats_passes (stats r) = int (length (filter is_pass evs))"
    using fr init collect_counts [of new_stats evs] by (simp_all add: all new_stats_def)
  have sn: "suiteName r = resolved_suiteName opts" using fr init by simp
  from report_run_end [OF assms(1) ne r, of utc d]
  show ?thesis by (simp add: tag_testsuite st sn)
qed

theorem root_counts_witness:
  "\<exists>children.
     report [EVENT_TEST_PASS example_pass, EVENT_TEST_FAIL example_fail,
             EVENT_TEST_PENDING example_pending, EVENT_RUN_END ''now'' (Number (Fin 7))]
       example_reporter =
       Inr ((''<testsuite name='' @ quoted ''Mocha Tests'' @ '' tests='' @ quoted ''3'' @
             '' failures='' @ quoted ''0'' @ '' errors='' @ quoted ''1'' @
             '' skipped='' @ quoted ''1'' @ '' timestamp='' @ quoted ''now'' @
             '' time='' @ quoted ''0.007'' @ ''>'' @ [CHR 0x0A]) # children)"
proof -
  let ?evs = "[EVENT_TEST_PASS example_pass, EVENT_TEST_FAIL example_fail,
     EVENT_TEST_PENDING example_pending]"
  have c: "XUnit example_env None = Inr example_reporter"
    by (simp add: XUnit_def outputPath_def reporter_options_of_def example_env_def
          example_reporter_def)
  have t: "list_all is_test_event ?evs" by simp
  have seven: "number_to_string (seconds (Number (Fin 7))) = ''0.007''" by code_simp
  have name: "escape (resolved_suiteName None) = ''Mocha Tests''"
    by (simp add: resolved_suiteName_def reporter_options_of_def DEFAULT_SUITE_NAME_def
          escape_Cons escape_char_def)
  have now: "escape ''now'' = ''now''" by (simp add: escape_Cons escape_char_def)
  have nums: "show_int 3 = ''3''" "show_int 1 = ''1''"
    by (simp_all add: show_int_def show_nat.simps)
  from root_counts [OF c t, of "''now''" "Number (Fin 7)"]
  show ?thesis by (simp add: seven name now nums del: number_to_string.simps)
qed

subsection \<open>The element of a test\<close>

lemma written_XUnit_test: "written (XUnit_test t r) = written r @ [test_line t @ [CHR 0x0A]]"
  by (simp add: XUnit_test_def written_XUnit_write)

lemma count_lt_escape [simp]: "count_list (escape s) CHR ''<'' = 0"
  by (simp add: count_list_0_iff escape_no_lt)

lemma count_lt_number [simp]: "count_list (number_to_string x) CHR ''<'' = 0"
  using number_to_string_not_markup [of "CHR ''<''" x] by (auto simp: count_list_0_iff)

lemma count_lt_failure_content [simp]: "count_list (failure_content e) CHR ''<'' = 0"
  by (simp add: count_list_0_iff failure_content_no_lt)

lemma test_line_text:
  "test_line t =
     ''<testcase classname='' @ quoted (escape (parent_fullTitle t)) @
     '' name='' @ quoted (escape (title t)) @
     '' time='' @ quoted (number_to_string (seconds (duration t))) @
     (if state t = STATE_FAILED then
        ''><failure>'' @ failure_content (err t) @ ''</failure></testcase>''
      else if isPending t then ''><skipped/></testcase>''
      else ''/>'')"
  by (simp add: test_line_def tag_testcase testcase_open_def del: number_to_string.simps)
     (simp add: tag_def failure_content_def Let_def)

text \<open>
  Claim C3. What \<open>XUnit.prototype.test\<close> writes for a test is one chunk, decided by the
  outcome. For a failed test (its state is \<open>failed\<close>) it is a \<open>testcase\<close> element that holds
  one \<open>failure\<close> element, whose text is not empty and has no \<open><\<close> in it; for a test that has
  not failed and is pending it is a \<open>testcase\<close> element that holds one self-closing
  \<open>skipped\<close> element; for any other test it is a self-closing \<open>testcase\<close>. In the three
  cases the opening tag carries the attributes \<open>classname\<close>, \<open>name\<close> and \<open>time\<close>, in this
  order and no other, and the chunk has no tag but these: it holds four, three and one
  \<open><\<close>.
\<close>

theorem testcase_shape:
  "written (XUnit_test t r) =
     written r @
     [''<testcase classname='' @ quoted (escape (parent_fullTitle t)) @
      '' name='' @ quoted (escape (title t)) @
      '' time='' @ quoted (number_to_string (seconds (duration t))) @
      (if state t = STATE_FAILED then
         ''><failure>'' @ failure_content (err t) @ ''</failure></testcase>''
       else if isPending t then ''><skipped/></testcase>''
       else ''/>'') @
      [CHR 0x0A]] \<and>
   CHR ''<'' \<notin> set (failure_content (err t)) \<and> failure_content (err t) \<noteq> [] \<and>
   count_list (last (written (XUnit_test t r))) CHR ''<'' =
     (if state t = STATE_FAILED then 4 else if isPending t then 3 else 1)"
proof (intro conjI)
  show w: "written (XUnit_test t r) =
     written r @
     [''<testcase classname='' @ quoted (escape (parent_fullTitle t)) @
      '' name='' @ quoted (escape (title t)) @
      '' time='' @ quoted (number_to_string (seconds (duration t))) @
      (if state t = STATE_FAILED then
         ''><failure>'' @ failure_content (err t) @ ''</failure></testcase>''
       else if isPending t then ''><skipped/></testcase>''
       else ''/>'') @
      [CHR 0x0A]]"
    unfolding written_XUnit_test by (subst test_line_text) simp
  show "CHR ''<'' \<notin> set (failure_content (err t))"
    by (rule failure_content_no_lt)
  show "failure_content (err t) \<noteq> []"
    by (simp add: failure_content_def Let_def)
  show "count_list (last (written (XUnit_test t r))) CHR ''<'' =
     (if state t = STATE_FAILED then 4 else if isPending t then 3 else 1)"
    unfolding w by (simp add: quoted_def del: number_to_string.simps)
qed

theorem testcase_shape_witness:
  "written (XUnit_test example_fail example_reporter) =
     [''<testcase classname='' @ quoted ''A'' @ '' name='' @ quoted ''t2'' @
      '' time='' @ quoted ''0'' @ ''><failure>x&lt;y'' @ [CHR 0x0A] @
      ''at f</failure></testcase>'' @ [CHR 0x0A]] \<and>
   written (XUnit_test example_pending example_reporter) =
     [''<testcase classname='' @ quoted ''A'' @ '' name='' @ quoted ''t3'' @
      '' time='' @ quoted ''0'' @ ''><skipped/></testcase>'' @ [CHR 0x0A]] \<and>
   written (XUnit_test example_pass example_reporter) =
     [''<testcase classname='' @ quoted ''A'' @ '' name='' @ quoted ''t1'' @
      '' time='' @ quoted ''0.005'' @ ''/>'' @ [CHR 0x0A]]"
proof -
  have five: "number_to_string (Fin (1 / 200)) = ''0.005''" by code_simp
  have w: "written example_reporter = []"
    by (simp add: example_reporter_def new_reporter_def written_def example_env_def)
  have f: "state example_fail = STATE_FAILED" "parent_fullTitle example_fail = ''A''"
    "title example_fail = ''t2''" "seconds (duration example_fail) = Fin 0"
    "err example_fail =
       \<lparr>message = ''x<y'', stack = ''at f'', showDiff = False, generatedDiff = []\<rparr>"
    by (simp_all add: example_fail_def seconds_def js_or_def)
  have p: "state example_pending \<noteq> STATE_FAILED" "isPending example_pending"
    "parent_fullTitle example_pending = ''A''" "title example_pending = ''t3''"
    "seconds (duration example_pending) = Fin 0"
    by (simp_all add: example_pending_def seconds_def js_or_def)
  have q: "state example_pass \<noteq> STATE_FAILED" "\<not> isPending example_pass"
    "parent_fullTitle example_pass = ''A''" "title example_pass = ''t1''"
    "seconds (duration example_pass) = Fin (1 / 200)"
    by (simp_all add: example_pass_def seconds_def js_or_def)
  note a = testcase_shape [of example_fail example_reporter, THEN conjunct1]
  note b = testcase_shape [of example_pending example_reporter, THEN conjunct1]
  note c = testcase_shape [of example_pass example_reporter, THEN conjunct1]
  have 1: "written (XUnit_test example_fail example_reporter) =
     [''<testcase classname='' @ quoted ''A'' @ '' name='' @ quoted ''t2'' @
      '' time='' @ quoted ''0'' @ ''><failure>x&lt;y'' @ [CHR 0x0A] @
      ''at f</failure></testcase>'' @ [CHR 0x0A]]"
    using a
    by (simp add: w f failure_content_def escape_Cons escape_char_def number_to_string_zero
          del: number_to_string.simps)
  have 2: "written (XUnit_test example_pending example_reporter) =
     [''<testcase classname='' @ quoted ''A'' @ '' name='' @ quoted ''t3'' @
      '' time='' @ quoted ''0'' @ ''><skipped/></testcase>'' @ [CHR 0x0A]]"
    using b
    by (simp add: w p escape_Cons escape_char_def number_to_string_zero
          del: number_to_string.simps)
  have 3: "written (XUnit_test example_pass example_reporter) =
     [''<testcase classname='' @ quoted ''A'' @ '' name='' @ quoted ''t1'' @
      '' time='' @ quoted ''0.005'' @ ''/>'' @ [CHR 0x0A]]"
    using c
    by (simp add: w q escape_Cons escape_char_def five del: number_to_string.simps)
  from 1 2 3 show ?thesis by blast
qed

subsection \<open>The children of the root element\<close>

text \<open>
  Claim C4. When the run ends, the reporter writes the opening tag of the root element,
  then for every test in the buffer one chunk that is one \<open>testcase\<close> element, then the
  closing tag, and nothing else. The buffer holds the tests of the pending, pass and fail
  events in the order in which the events arrived, one entry for each event; nothing is
  sorted, merged or dropped.
\<close>

theorem children_in_arrival_order:
  assumes "XUnit env opts = Inr r0" and "list_all (\<lambda>ev. \<not> is_run_end ev) evs"
    and "run evs r0 = Inr r"
  shows "tests r = buffered evs \<and>
         length (buffered evs) = length (filter is_test_event evs) \<and>
         report (evs @ [EVENT_RUN_END utc d]) r0 =
           Inr ((''<testsuite name='' @ quoted (escape (suiteName r)) @
                 '' tests='' @ quoted (show_int (stats_tests (stats r))) @
                 '' failures='' @ quoted ''0'' @
                 '' errors='' @ quoted (show_int (stats_failures (stats r))) @
                 '' skipped='' @ quoted (show_int
                    (stats_tests (stats r) - stats_failures (stats r) -
                     stats_passes (stats r))) @
                 '' timestamp='' @ quoted (escape utc) @
                 '' time='' @ quoted (number_to_string (seconds d)) @ ''>'' @ [CHR 0x0A]) #
                map (\<lambda>t.
                    ''<testcase classname='' @ quoted (escape (parent_fullTitle t)) @
                    '' name='' @ quoted (escape (title t)) @
                    '' time='' @ quoted (number_to_string (seconds (duration t))) @
                    (if state t = STATE_FAILED then
                       ''><failure>'' @ failure_content (err t) @ ''</failure></testcase>''
                     else if isPending t then ''><skipped/></testcase>''
                     else ''/>'') @
                    [CHR 0x0A])
                  (buffered evs) @
                [''</testsuite>'' @ [CHR 0x0A]])"
proof -
  have t: "tests r = buffered evs" by (rule run_buffer [OF assms])
  have l: "length (buffered es) = length (filter is_test_event es)" for es
    by (induction es rule: buffered.induct) simp_all
  have e: "test_line t @ [CHR 0x0A] =
      ''<testcase classname='' @ quoted (escape (parent_fullTitle t)) @
      '' name='' @ quoted (escape (title t)) @
      '' time='' @ quoted (number_to_string (seconds (duration t))) @
      (if state t = STATE_FAILED then
         ''><failure>'' @ failure_content (err t) @ ''</failure></testcase>''
       else if isPending t then ''><skipped/></testcase>''
       else ''/>'') @
      [CHR 0x0A]" for t
    by (subst test_line_text) simp
  have "report (evs @ [EVENT_RUN_END utc d]) r0 =
           Inr ((''<testsuite name='' @ quoted (escape (suiteName r)) @
                 '' tests='' @ quoted (show_int (stats_tests (stats r))) @
                 '' failures='' @ quoted ''0'' @
                 '' errors='' @ quoted (show_int (stats_failures (stats r))) @
                 '' skipped='' @ quoted (show_int
                    (stats_tests (stats r) - stats_failures (stats r) -
                     stats_passes (stats r))) @
                 '' timestamp='' @ quoted (escape utc) @
                 '' time='' @ quoted (number_to_string (seconds d)) @ ''>'' @ [CHR 0x0A]) #
                map (\<lambda>t.
                    ''<testcase classname='' @ quoted (escape (parent_fullTitle t)) @
                    '' name='' @ quoted (escape (title t)) @
                    '' time='' @ quoted (number_to_string (seconds (duration t))) @
                    (if state t = STATE_FAILED then
                       ''><failure>'' @ failure_content (err t) @ ''</failure></testcase>''
                     else if isPending t then ''><skipped/></testcase>''
                     else ''/>'') @
                    [CHR 0x0A])
                  (buffered evs) @
                [''</testsuite>'' @ [CHR 0x0A]])"
    unfolding e [symmetric]
    using report_run_end [OF assms, of utc d]
    by (simp add: tag_testsuite t del: number_to_string.simps)
  with t l show ?thesis by blast
qed

theorem children_in_arrival_order_witness:
  "report [EVENT_SUITE_BEGIN ''A'', EVENT_TEST_PASS example_pass, EVENT_TEST_FAIL example_fail,
           EVENT_SUITE_END, EVENT_TEST_PENDING example_pending,
           EVENT_RUN_END ''now'' (Number (Fin 7))] example_reporter =
     Inr [''<testsuite name='' @ quoted ''Mocha Tests'' @ '' tests='' @ quoted ''3'' @
          '' failures='' @ quoted ''0'' @ '' errors='' @ quoted ''1'' @
          '' skipped='' @ quoted ''1'' @ '' timestamp='' @ quoted ''now'' @
          '' time='' @ quoted ''0.007'' @ ''>'' @ [CHR 0x0A],
          ''<testcase classname='' @ quoted ''A'' @ '' name='' @ quoted ''t1'' @
          '' time='' @ quoted ''0.005'' @ ''/>'' @ [CHR 0x0A],
          ''<testcase classname='' @ quoted ''A'' @ '' name='' @ quoted ''t2'' @
          '' time='' @ quoted ''0'' @ ''><failure>x&lt;y'' @ [CHR 0x0A] @
          ''at f</failure></testcase>'' @ [CHR 0x0A],
          ''<testcase classname='' @ quoted ''A'' @ '' name='' @ quoted ''t3'' @
          '' time='' @ quoted ''0'' @ ''><skipped/></testcase>'' @ [CHR 0x0A],
          ''</testsuite>'' @ [CHR 0x0A]]"
proof -
  let ?evs = "[EVENT_SUITE_BEGIN ''A'', EVENT_TEST_PASS example_pass,
     EVENT_TEST_FAIL example_fail, EVENT_SUITE_END, EVENT_TEST_PENDING example_pending]"
  have c: "XUnit example_env None = Inr example_reporter"
    by (simp add: XUnit_def outputPath_def reporter_options_of_def example_env_def
          example_reporter_def)
  have n: "list_all (\<lambda>ev. \<not> is_run_end ev) ?evs" by simp
  have "balanced ?evs" by (simp add: balanced_def)
  then have "\<forall>k\<le>length ?evs. 0 \<le> indents example_reporter + net (take k ?evs)"
    using balanced_prefix [of ?evs] XUnit_initial [OF c] by simp
  from run_ok [OF this] obtain r where r: "run ?evs example_reporter = Inr r" by blast
  note fr = run_frame [OF r n] and init = XUnit_initial [OF c]
  have st: "stats_tests (stats r) = 3" "stats_failures (stats r) = 1"
    "stats_passes (stats r) = 1"
    using fr init by (simp_all add: new_stats_def)
  have sn: "escape (suiteName r) = ''Mocha Tests''"
    using fr init by (simp add: resolved_suiteName_def reporter_options_of_def
        DEFAULT_SUITE_NAME_def escape_Cons escape_char_def)
  have nums: "number_to_string (Fin (1 / 200)) = ''0.005''"
    "number_to_string (Fin (7 / 1000)) = ''0.007''"
    "show_int 3 = ''3''" "show_int 1 = ''1''"
    by code_simp+
  have f: "state example_fail = STATE_FAILED" "parent_fullTitle example_fail = ''A''"
    "title example_fail = ''t2''" "seconds (duration example_fail) = Fin 0"
    "err example_fail =
       \<lparr>message = ''x<y'', stack = ''at f'', showDiff = False, generatedDiff = []\<rparr>"
    by (simp_all add: example_fail_def seconds_def js_or_def)
  have p: "state example_pending \<noteq> STATE_FAILED" "isPending example_pending"
    "parent_fullTitle example_pending = ''A''" "title example_pending = ''t3''"
    "seconds (duration example_pending) = Fin 0"
    by (simp_all add: example_pending_def seconds_def js_or_def)
  have q: "state example_pass \<noteq> STATE_FAILED" "\<not> isPending example_pass"
    "parent_fullTitle example_pass = ''A''" "title example_pass = ''t1''"
    "seconds (duration example_pass) = Fin (1 / 200)"
    by (simp_all add: example_pass_def seconds_def js_or_def)
  have d: "seconds (Number (Fin 7)) = Fin (7 / 1000)" by (simp add: seconds_def js_or_def)
  from children_in_arrival_order [OF c n r, of "''now''" "Number (Fin 7)"]
  show ?thesis
    by (simp add: st sn nums f p q d failure_content_def escape_Cons escape_char_def
          number_to_string_zero del: number_to_string.simps)
qed

subsection \<open>Durations\<close>






subsection \<open>Teardown\<close>

lemma sink_steps_first:
  assumes "sink_steps r1 r'" and "sink_step r r1"
  shows "sink_steps r r'"
  using assms
proof (induction rule: sink_steps.induct)
  case (refl r1)
  have "sink_steps r r" by (rule sink_steps.refl)
  then show ?case using refl by (rule sink_steps.step)
next
  case (step r1 r2 r3)
  then show ?case by (blast intro: sink_steps.step)
qed

lemma sink_inv_step:
  assumes "sink_inv r fs f r1" and "sink_step r1 r2"
  shows "sink_inv r fs f r2"
  using assms(2,1)
  by (induction rule: sink_step.induct) (auto simp: sink_inv_def fn_def)

lemma sink_inv_steps:
  assumes "sink_steps r1 r2" and "sink_inv r fs f r1"
  shows "sink_inv r fs f r2"
  using assms
  by (induction rule: sink_steps.induct) (auto intro: sink_inv_step)

lemma sink_drains:
  "fileStream r = Some fs \<Longrightarrow> \<not> finished fs \<Longrightarrow> end_callback fs = Some f \<Longrightarrow>
   \<exists>r'. sink_steps r r' \<and> completed r' = completed r @ [f]"
proof (induction "queued fs" arbitrary: r fs)
  case Nil
  then have "sink_step r (fn f (r\<lparr>fileStream := Some (fs\<lparr>finished := True\<rparr>)\<rparr>))"
    by (intro sink_step.finish) simp_all
  then have "sink_steps r (fn f (r\<lparr>fileStream := Some (fs\<lparr>finished := True\<rparr>)\<rparr>))"
    using sink_steps.refl sink_steps.step by blast
  then show ?case by (auto simp: fn_def intro!: exI)
next
  case (Cons c cs)
  let ?fs = "fs\<lparr>queued := cs, written_to_file := written_to_file fs @ [c]\<rparr>"
  let ?r = "r\<lparr>fileStream := Some ?fs\<rparr>"
  have s: "sink_step r ?r" using Cons.prems Cons.hyps(2) [symmetric]
    by (intro sink_step.flush) simp_all
  have "\<exists>r'. sink_steps ?r r' \<and> completed r' = completed ?r @ [f]"
    using Cons.hyps(1) [of ?fs ?r] Cons.prems by simp
  then obtain r' where "sink_steps ?r r'" "completed r' = completed r @ [f]" by auto
  with sink_steps_first [OF _ s] show ?case by blast
qed

text \<open>
  Claim C5. Without a file stream, \<open>done\<close> calls the completion callback at once. With an
  open file stream, \<open>done\<close> ends the stream and does not call the callback itself: the
  callback is called by the step in which the sink finishes, and by then every chunk that
  was queued is in the file and the sink is closed. The sink does reach that step.
\<close>

theorem done_after_sink_finished:
  "(fileStream r = None \<longrightarrow> XUnit_done f r = fn f r \<and> completed (XUnit_done f r) = completed r @ [f]) \<and>
   (fileStream r = Some fs \<and> end_callback fs = None \<and> \<not> finished fs \<longrightarrow>
      completed (XUnit_done f r) = completed r \<and>
      (\<forall>r'. sink_steps (XUnit_done f r) r' \<and> completed r' \<noteq> completed r \<longrightarrow>
         completed r' = completed r @ [f] \<and>
         (\<exists>fs'. fileStream r' = Some fs' \<and> finished fs' \<and> queued fs' = [] \<and>
            written_to_file fs' = written_to_file fs @ queued fs)) \<and>
      (\<exists>r'. sink_steps (XUnit_done f r) r' \<and> completed r' = completed r @ [f]))"
proof (intro conjI impI allI)
  assume "fileStream r = None"
  then show "XUnit_done f r = fn f r" by (simp add: XUnit_done_def)
  then show "completed (XUnit_done f r) = completed r @ [f]" by (simp add: fn_def)
next
  assume a: "fileStream r = Some fs \<and> end_callback fs = None \<and> \<not> finished fs"
  then have d: "XUnit_done f r = r\<lparr>fileStream := Some (fs\<lparr>end_callback := Some f\<rparr>)\<rparr>"
    by (simp add: XUnit_done_def stream_end_def)
  show c: "completed (XUnit_done f r) = completed r" by (simp add: d)
  have inv0: "sink_inv r fs f (XUnit_done f r)" using a by (simp add: d sink_inv_def)
  show "\<exists>r'. sink_steps (XUnit_done f r) r' \<and> completed r' = completed r @ [f]"
    using sink_drains [of "XUnit_done f r" "fs\<lparr>end_callback := Some f\<rparr>" f] a c
    by (simp add: d)
  fix r' assume s: "sink_steps (XUnit_done f r) r' \<and> completed r' \<noteq> completed r"
  from sink_inv_steps [OF _ inv0, of r'] s have "sink_inv r fs f r'" by simp
  with s show "completed r' = completed r @ [f]"
    "\<exists>fs'. fileStream r' = Some fs' \<and> finished fs' \<and> queued fs' = [] \<and>
        written_to_file fs' = written_to_file fs @ queued fs"
    by (auto simp: sink_inv_def split: if_splits)
qed

theorem done_after_sink_finished_witness:
  "completed (XUnit_done 1 example_reporter) = [1] \<and>
   completed (XUnit_done 1 example_file_reporter) = [] \<and>
   (\<exists>r' fs'. sink_steps (XUnit_done 1 example_file_reporter) r' \<and> completed r' = [1] \<and>
      fileStream r' = Some fs' \<and> finished fs' \<and> queued fs' = [] \<and>
      written_to_file fs' = [''a'', ''b'', ''c''])"
proof -
  let ?fs = "(createWriteStream ''out.xml'')\<lparr>queued := [''a'', ''b'', ''c'']\<rparr>"
  have n: "fileStream example_reporter = None" "completed example_reporter = []"
    by (simp_all add: example_reporter_def new_reporter_def)
  have f: "fileStream example_file_reporter = Some ?fs \<and> end_callback ?fs = None \<and>
      \<not> finished ?fs"
    and c: "completed example_file_reporter = []"
    and w: "written_to_file ?fs @ queued ?fs = [''a'', ''b'', ''c'']"
    by (simp_all add: example_file_reporter_def new_reporter_def createWriteStream_def)
  note a = done_after_sink_finished [where r = example_reporter and f = 1 and fs = ?fs]
  note b = done_after_sink_finished [where r = example_file_reporter and f = 1 and fs = ?fs]
  from a n have 1: "completed (XUnit_done 1 example_reporter) = [1]" by (simp add: fn_def)
  from b f c have 2: "completed (XUnit_done 1 example_file_reporter) = []" by simp
  from b f c obtain r' where r': "sink_steps (XUnit_done 1 example_file_reporter) r'"
    "completed r' = [1]" by auto
  then have "sink_steps (XUnit_done 1 example_file_reporter) r' \<and>
      completed r' \<noteq> completed example_file_reporter" by (simp add: c)
  with b f have "\<exists>fs'. fileStream r' = Some fs' \<and> finished fs' \<and> queued fs' = [] \<and>
      written_to_file fs' = written_to_file ?fs @ queued ?fs" by blast
  with r' w 1 2 show ?thesis by auto
qed

subsection \<open>The report as an XML document\<close>












lemma name_start_name_char: "is_name_start c \<Longrightarrow> is_name_char c"
  by (simp add: is_name_char_def)

lemma not_name_char [simp]:
  "\<not> is_name_char CHR ''=''" "\<not> is_name_char CHR '' ''" "\<not> is_name_char CHR ''/''"
  "\<not> is_name_char CHR ''>''"
  by (simp_all add: is_name_char_def is_name_start_def)

lemma not_name_start [simp]:
  "\<not> is_name_start CHR ''>''" "\<not> is_name_start CHR ''/''" "\<not> is_name_start CHR ''!''"
  "\<not> is_name_start CHR ''?''" "\<not> is_name_start CHR ''<''"
  by (simp_all add: is_name_start_def)
















lemma escape_eq_Nil [simp]: "(escape x = []) = (x = [])"
  by (cases x) (simp_all add: escape_Cons escape_char_def)








lemma failure_text_not_Nil [simp]: "failure_text e \<noteq> []"
  by (simp add: failure_text_def)












lemma text_safe_append [simp]: "text_safe (a @ b) = (text_safe a \<and> text_safe b)"
  by (simp add: text_safe_def)


lemma text_safe_Nil [simp]: "text_safe []"
  by (simp add: text_safe_def)



























end
